theory Spec2Isabelle
  imports Main
begin

section \<open>Memory model\<close>

text \<open>
  \<^verbatim>\<open>py::scoped_ref<T>\<close> (\<^verbatim>\<open>include/libpy/scoped_ref.h\<close>) is a class with the single
  field \<^verbatim>\<open>T* m_ref\<close>. Its member functions take \<^verbatim>\<open>this\<close> and other handles by reference,
  so two references may designate the same handle object; handles therefore live in an
  explicit store, indexed by the address of the handle object. The objects the handles
  point to live in the foreign runtime's heap, which records for every live object its
  reference count \<^verbatim>\<open>ob_refcnt\<close> (a signed \<^verbatim>\<open>Py_ssize_t\<close>; no claim depends on its width,
  so it is an unbounded \<open>int\<close>). A freed object is absent from the heap.
\<close>

type_synonym addr = nat

text \<open>A \<^verbatim>\<open>T*\<close>; \<open>None\<close> is \<^verbatim>\<open>nullptr\<close>.\<close>

type_synonym ptr = "addr option"

text \<open>The address of a \<^verbatim>\<open>scoped_ref\<close> object (what \<^verbatim>\<open>this\<close> and a C++ reference hold).\<close>

type_synonym href = nat

record scoped_ref =
  m_ref :: ptr

text \<open>
  The calls that reach the runtime: \<^verbatim>\<open>Py_INCREF\<close> (a retain) and \<^verbatim>\<open>Py_DECREF\<close> (a release)
  of a non-null pointer.
\<close>

datatype event = Retain addr | Release addr

text \<open>
  Undefined behaviour of the C++ program, as a value: a retain or release of an object
  that was freed, a member call through a reference to a handle that is not alive, and
  \<^verbatim>\<open>operator*\<close> on a null handle.
\<close>

datatype fault = UseAfterFree addr | DanglingRef href | NullDeref href

record world =
  refs :: "href \<rightharpoonup> scoped_ref"
  objs :: "addr \<rightharpoonup> int"
  calls :: "event list"

definition and_then :: "fault + 'a \<Rightarrow> ('a \<Rightarrow> fault + 'b) \<Rightarrow> fault + 'b" where
  "and_then m f = (case m of Inl e \<Rightarrow> Inl e | Inr x \<Rightarrow> f x)"

text \<open>Reading and writing the field \<^verbatim>\<open>m_ref\<close> of the handle object at \<open>h\<close>.\<close>

definition get_m_ref :: "href \<Rightarrow> world \<Rightarrow> fault + ptr" where
  "get_m_ref h w = (case refs w h of None \<Rightarrow> Inl (DanglingRef h) | Some r \<Rightarrow> Inr (m_ref r))"

definition set_m_ref :: "href \<Rightarrow> ptr \<Rightarrow> world \<Rightarrow> fault + world" where
  "set_m_ref h p w =
     (case refs w h of
        None \<Rightarrow> Inl (DanglingRef h)
      | Some r \<Rightarrow> Inr (w\<lparr>refs := (refs w)(h \<mapsto> r\<lparr>m_ref := p\<rparr>)\<rparr>))"

text \<open>
  A constructor's member initialiser \<^verbatim>\<open>m_ref(p)\<close>: the handle object at \<open>this\<close> starts
  to exist with that field.
\<close>

definition init_m_ref :: "href \<Rightarrow> ptr \<Rightarrow> world \<Rightarrow> world" where
  "init_m_ref this p w = w\<lparr>refs := (refs w)(this \<mapsto> \<lparr>m_ref = p\<rparr>)\<rparr>"

section \<open>The runtime's retain and release\<close>

text \<open>
  Modelled from the spec: the macros \<^verbatim>\<open>Py_XINCREF\<close> and \<^verbatim>\<open>Py_XDECREF\<close> come from
  \<^verbatim>\<open>Python.h\<close>, which is not part of the repository. The specification describes them as
  \<^verbatim>\<open>retain(ptr)\<close> and \<^verbatim>\<open>release(ptr)\<close>: both are no-ops on a null pointer; retain
  increments the object's reference count; release decrements it and frees the object
  when the count reaches zero. Either one applied to an object that was already freed
  is a use after free.
\<close>

definition Py_XINCREF :: "ptr \<Rightarrow> world \<Rightarrow> fault + world" where
  "Py_XINCREF p w =
     (case p of
        None \<Rightarrow> Inr w
      | Some a \<Rightarrow>
          (case objs w a of
             None \<Rightarrow> Inl (UseAfterFree a)
           | Some n \<Rightarrow> Inr (w\<lparr>objs := (objs w)(a \<mapsto> n + 1), calls := calls w @ [Retain a]\<rparr>)))"

definition Py_XDECREF :: "ptr \<Rightarrow> world \<Rightarrow> fault + world" where
  "Py_XDECREF p w =
     (case p of
        None \<Rightarrow> Inr w
      | Some a \<Rightarrow>
          (case objs w a of
             None \<Rightarrow> Inl (UseAfterFree a)
           | Some n \<Rightarrow>
               Inr (w\<lparr>objs := (if n - 1 = 0 then (objs w)(a := None) else (objs w)(a \<mapsto> n - 1)),
                       calls := calls w @ [Release a]\<rparr>)))"

section \<open>Construction, assignment, destruction, escape\<close>

text \<open>\<^verbatim>\<open>constexpr scoped_ref() : m_ref(nullptr) {}\<close>\<close>

definition scoped_ref_default :: "href \<Rightarrow> world \<Rightarrow> fault + world" where
  "scoped_ref_default this w = Inr (init_m_ref this None w)"

text \<open>\<^verbatim>\<open>constexpr scoped_ref(std::nullptr_t) : m_ref(nullptr) {}\<close>\<close>

definition scoped_ref_nullptr :: "href \<Rightarrow> world \<Rightarrow> fault + world" where
  "scoped_ref_nullptr this w = Inr (init_m_ref this None w)"

text \<open>\<^verbatim>\<open>explicit scoped_ref(T* ref) : m_ref(ref) {}\<close>\<close>

definition scoped_ref_adopt :: "href \<Rightarrow> ptr \<Rightarrow> world \<Rightarrow> fault + world" where
  "scoped_ref_adopt this ref w = Inr (init_m_ref this ref w)"

text \<open>\<^verbatim>\<open>scoped_ref(const scoped_ref& cpfrom) : m_ref(cpfrom.m_ref) { Py_XINCREF(m_ref); }\<close>\<close>

definition scoped_ref_copy :: "href \<Rightarrow> href \<Rightarrow> world \<Rightarrow> fault + world" where
  "scoped_ref_copy this cpfrom w =
     and_then (get_m_ref cpfrom w) (\<lambda>p.
     let w1 = init_m_ref this p w in
     and_then (get_m_ref this w1) (\<lambda>cur.
     Py_XINCREF cur w1))"

text \<open>
  \<^verbatim>\<open>scoped_ref(scoped_ref&& mvfrom) noexcept : m_ref(mvfrom.m_ref) { mvfrom.m_ref = nullptr; }\<close>
\<close>

definition scoped_ref_move :: "href \<Rightarrow> href \<Rightarrow> world \<Rightarrow> fault + world" where
  "scoped_ref_move this mvfrom w =
     and_then (get_m_ref mvfrom w) (\<lambda>p.
     let w1 = init_m_ref this p w in
     set_m_ref mvfrom None w1)"

text \<open>
  \<^verbatim>\<open>
  scoped_ref& operator=(const scoped_ref& cpfrom) {
      Py_XDECREF(m_ref);
      m_ref = cpfrom.m_ref;
      Py_XINCREF(m_ref);
      return *this;
  }
  \<close>
\<close>

definition operator_assign_copy :: "href \<Rightarrow> href \<Rightarrow> world \<Rightarrow> fault + world" where
  "operator_assign_copy this cpfrom w =
     and_then (get_m_ref this w) (\<lambda>old.
     and_then (Py_XDECREF old w) (\<lambda>w1.
     and_then (get_m_ref cpfrom w1) (\<lambda>p.
     and_then (set_m_ref this p w1) (\<lambda>w2.
     and_then (get_m_ref this w2) (\<lambda>cur.
     Py_XINCREF cur w2)))))"

text \<open>
  \<^verbatim>\<open>
  scoped_ref& operator=(scoped_ref&& mvfrom) noexcept {
      Py_XDECREF(m_ref);
      m_ref = mvfrom.m_ref;
      mvfrom.m_ref = nullptr;
      return *this;
  }
  \<close>
\<close>

definition operator_assign_move :: "href \<Rightarrow> href \<Rightarrow> world \<Rightarrow> fault + world" where
  "operator_assign_move this mvfrom w =
     and_then (get_m_ref this w) (\<lambda>old.
     and_then (Py_XDECREF old w) (\<lambda>w1.
     and_then (get_m_ref mvfrom w1) (\<lambda>p.
     and_then (set_m_ref this p w1) (\<lambda>w2.
     set_m_ref mvfrom None w2))))"

text \<open>
  \<^verbatim>\<open>~scoped_ref() { Py_XDECREF(m_ref); }\<close>; the handle object then stops existing.
\<close>

definition scoped_ref_dtor :: "href \<Rightarrow> world \<Rightarrow> fault + world" where
  "scoped_ref_dtor this w =
     and_then (get_m_ref this w) (\<lambda>p.
     and_then (Py_XDECREF p w) (\<lambda>w1.
     Inr (w1\<lparr>refs := (refs w1)(this := None)\<rparr>)))"

text \<open>\<^verbatim>\<open>T* escape() && { T* ret = m_ref; m_ref = nullptr; return ret; }\<close>\<close>

definition escape :: "href \<Rightarrow> world \<Rightarrow> fault + ptr \<times> world" where
  "escape this w =
     and_then (get_m_ref this w) (\<lambda>ret.
     and_then (set_m_ref this None w) (\<lambda>w1.
     Inr (ret, w1)))"

section \<open>Observers\<close>

text \<open>\<^verbatim>\<open>T* get() { return m_ref; }\<close> and \<^verbatim>\<open>const T* get() const { return m_ref; }\<close>\<close>

definition get :: "href \<Rightarrow> world \<Rightarrow> fault + ptr \<times> world" where
  "get this w = and_then (get_m_ref this w) (\<lambda>p. Inr (p, w))"

definition get_const :: "href \<Rightarrow> world \<Rightarrow> fault + ptr \<times> world" where
  "get_const this w = and_then (get_m_ref this w) (\<lambda>p. Inr (p, w))"

text \<open>
  \<^verbatim>\<open>explicit operator T*()\<close> and \<^verbatim>\<open>explicit operator const T*() const\<close>, both
  \<^verbatim>\<open>return m_ref;\<close>
\<close>

definition operator_T_ptr :: "href \<Rightarrow> world \<Rightarrow> fault + ptr \<times> world" where
  "operator_T_ptr this w = and_then (get_m_ref this w) (\<lambda>p. Inr (p, w))"

definition operator_const_T_ptr :: "href \<Rightarrow> world \<Rightarrow> fault + ptr \<times> world" where
  "operator_const_T_ptr this w = and_then (get_m_ref this w) (\<lambda>p. Inr (p, w))"

text \<open>
  \<^verbatim>\<open>explicit operator PyObject*()\<close> and \<^verbatim>\<open>explicit operator const PyObject*() const\<close>:
  \<^verbatim>\<open>return reinterpret_cast<PyObject*>(m_ref);\<close> The cast keeps the address.
\<close>

definition operator_PyObject_ptr :: "href \<Rightarrow> world \<Rightarrow> fault + ptr \<times> world" where
  "operator_PyObject_ptr this w = and_then (get_m_ref this w) (\<lambda>p. Inr (p, w))"

definition operator_const_PyObject_ptr :: "href \<Rightarrow> world \<Rightarrow> fault + ptr \<times> world" where
  "operator_const_PyObject_ptr this w = and_then (get_m_ref this w) (\<lambda>p. Inr (p, w))"

text \<open>
  \<^verbatim>\<open>T& operator*() { return *m_ref; }\<close> and its const form: the result designates the
  object at the stored address; dereferencing \<^verbatim>\<open>nullptr\<close> is undefined.
\<close>

definition operator_star :: "href \<Rightarrow> world \<Rightarrow> fault + addr \<times> world" where
  "operator_star this w =
     and_then (get_m_ref this w) (\<lambda>p.
     case p of None \<Rightarrow> Inl (NullDeref this) | Some a \<Rightarrow> Inr (a, w))"

definition operator_star_const :: "href \<Rightarrow> world \<Rightarrow> fault + addr \<times> world" where
  "operator_star_const this w =
     and_then (get_m_ref this w) (\<lambda>p.
     case p of None \<Rightarrow> Inl (NullDeref this) | Some a \<Rightarrow> Inr (a, w))"

text \<open>\<^verbatim>\<open>T* operator->() { return m_ref; }\<close> and its const form.\<close>

definition operator_arrow :: "href \<Rightarrow> world \<Rightarrow> fault + ptr \<times> world" where
  "operator_arrow this w = and_then (get_m_ref this w) (\<lambda>p. Inr (p, w))"

definition operator_arrow_const :: "href \<Rightarrow> world \<Rightarrow> fault + ptr \<times> world" where
  "operator_arrow_const this w = and_then (get_m_ref this w) (\<lambda>p. Inr (p, w))"

text \<open>
  \<^verbatim>\<open>explicit operator bool() const { return m_ref; }\<close>: a pointer converts to \<^verbatim>\<open>true\<close>
  unless it is null.
\<close>

definition operator_bool :: "href \<Rightarrow> world \<Rightarrow> fault + bool \<times> world" where
  "operator_bool this w = and_then (get_m_ref this w) (\<lambda>p. Inr (p \<noteq> None, w))"

text \<open>\<^verbatim>\<open>bool operator==(T* other) const { return m_ref == other; }\<close>\<close>

definition operator_eq_ptr :: "href \<Rightarrow> ptr \<Rightarrow> world \<Rightarrow> fault + bool \<times> world" where
  "operator_eq_ptr this other w = and_then (get_m_ref this w) (\<lambda>p. Inr (p = other, w))"

text \<open>
  \<^verbatim>\<open>bool operator==(const scoped_ref& other) const { return m_ref == other.get(); }\<close>
\<close>

definition operator_eq_ref :: "href \<Rightarrow> href \<Rightarrow> world \<Rightarrow> fault + bool \<times> world" where
  "operator_eq_ref this other w =
     and_then (get_m_ref this w) (\<lambda>p.
     and_then (get_const other w) (\<lambda>(q, w1).
     Inr (p = q, w1)))"

text \<open>\<^verbatim>\<open>bool operator!=(T* other) const { return m_ref != other; }\<close>\<close>

definition operator_ne_ptr :: "href \<Rightarrow> ptr \<Rightarrow> world \<Rightarrow> fault + bool \<times> world" where
  "operator_ne_ptr this other w = and_then (get_m_ref this w) (\<lambda>p. Inr (p \<noteq> other, w))"

text \<open>
  \<^verbatim>\<open>bool operator!=(const scoped_ref& other) const { return m_ref != other.get(); }\<close>
\<close>

definition operator_ne_ref :: "href \<Rightarrow> href \<Rightarrow> world \<Rightarrow> fault + bool \<times> world" where
  "operator_ne_ref this other w =
     and_then (get_m_ref this w) (\<lambda>p.
     and_then (get_const other w) (\<lambda>(q, w1).
     Inr (p \<noteq> q, w1)))"

section \<open>Credits\<close>

text \<open>
  The handles that store the address \<open>a\<close>. Invariants I1 to I3 of the data model, stated
  for the whole store: every handle with a non-null pointer holds a credit of its own, so
  an object some handle points to is alive and its reference count covers at least one
  credit per handle that points to it. The credits beyond those are held outside the
  handles (raw pointers of the caller): they are \<open>spare\<close>.
\<close>

definition holders :: "world \<Rightarrow> addr \<Rightarrow> href set" where
  "holders w a = {h. \<exists>r. refs w h = Some r \<and> m_ref r = Some a}"

text \<open>
  The invariant at one address (a freed object has no holder; a live one has a count that
  covers its holders), and for the whole state.
\<close>

definition ok_at :: "world \<Rightarrow> addr \<Rightarrow> bool" where
  "ok_at w a =
     (case objs w a of
        None \<Rightarrow> holders w a = {}
      | Some n \<Rightarrow> int (card (holders w a)) \<le> n)"

definition credits_ok :: "world \<Rightarrow> bool" where
  "credits_ok w \<longleftrightarrow> finite (dom (refs w)) \<and> (\<forall>a. ok_at w a)"

definition spare :: "world \<Rightarrow> addr \<Rightarrow> int" where
  "spare w a = (case objs w a of None \<Rightarrow> 0 | Some n \<Rightarrow> n - int (card (holders w a)))"

text \<open>
  A handle that holds no credit: it does not exist, or its pointer is null.
\<close>

definition holds_nothing :: "world \<Rightarrow> href \<Rightarrow> bool" where
  "holds_nothing w h = (case refs w h of None \<Rightarrow> True | Some r \<Rightarrow> m_ref r = None)"

text \<open>
  The handle \<open>h\<close> points to an object whose reference count is one.
\<close>

definition last_credit :: "world \<Rightarrow> href \<Rightarrow> bool" where
  "last_credit w h =
     (case refs w h of
        None \<Rightarrow> False
      | Some r \<Rightarrow> (case m_ref r of None \<Rightarrow> False | Some a \<Rightarrow> objs w a = Some 1))"

text \<open>The release a destruction or reassignment makes for the pointer it gives up.\<close>

definition release_of :: "ptr \<Rightarrow> event list" where
  "release_of p = (case p of None \<Rightarrow> [] | Some a \<Rightarrow> [Release a])"

section \<open>Operations as data\<close>

text \<open>
  The public operations of the class, so that statements can range over all of them:
  \<open>exec\<close> runs one and drops the value it returns.
\<close>

datatype observer =
    Get | Get_const | To_T_ptr | To_const_T_ptr | To_PyObject_ptr | To_const_PyObject_ptr
  | Star | Star_const | Arrow | Arrow_const | To_bool
  | Eq_ptr ptr | Eq_ref href | Ne_ptr ptr | Ne_ref href

datatype op =
    Construct_default href
  | Construct_nullptr href
  | Construct_adopt href ptr
  | Construct_copy href href
  | Construct_move href href
  | Assign_copy href href
  | Assign_move href href
  | Destroy href
  | Escape href
  | Observe href observer

definition discard :: "fault + 'a \<times> world \<Rightarrow> fault + world" where
  "discard m = and_then m (\<lambda>(v, w). Inr w)"

fun observe :: "observer \<Rightarrow> href \<Rightarrow> world \<Rightarrow> fault + world" where
  "observe Get h w = discard (get h w)"
| "observe Get_const h w = discard (get_const h w)"
| "observe To_T_ptr h w = discard (operator_T_ptr h w)"
| "observe To_const_T_ptr h w = discard (operator_const_T_ptr h w)"
| "observe To_PyObject_ptr h w = discard (operator_PyObject_ptr h w)"
| "observe To_const_PyObject_ptr h w = discard (operator_const_PyObject_ptr h w)"
| "observe Star h w = discard (operator_star h w)"
| "observe Star_const h w = discard (operator_star_const h w)"
| "observe Arrow h w = discard (operator_arrow h w)"
| "observe Arrow_const h w = discard (operator_arrow_const h w)"
| "observe To_bool h w = discard (operator_bool h w)"
| "observe (Eq_ptr q) h w = discard (operator_eq_ptr h q w)"
| "observe (Eq_ref h2) h w = discard (operator_eq_ref h h2 w)"
| "observe (Ne_ptr q) h w = discard (operator_ne_ptr h q w)"
| "observe (Ne_ref h2) h w = discard (operator_ne_ref h h2 w)"

fun exec :: "op \<Rightarrow> world \<Rightarrow> fault + world" where
  "exec (Construct_default this) w = scoped_ref_default this w"
| "exec (Construct_nullptr this) w = scoped_ref_nullptr this w"
| "exec (Construct_adopt this p) w = scoped_ref_adopt this p w"
| "exec (Construct_copy this cpfrom) w = scoped_ref_copy this cpfrom w"
| "exec (Construct_move this mvfrom) w = scoped_ref_move this mvfrom w"
| "exec (Assign_copy this cpfrom) w = operator_assign_copy this cpfrom w"
| "exec (Assign_move this mvfrom) w = operator_assign_move this mvfrom w"
| "exec (Destroy this) w = scoped_ref_dtor this w"
| "exec (Escape this) w = discard (escape this w)"
| "exec (Observe this ob) w = observe ob this w"

text \<open>
  The uses of an operation that the class supports. A constructor runs on storage that
  holds no handle yet; every other member function runs on live handles; the adopting
  constructor is given a pointer that carries a credit no handle holds; \<^verbatim>\<open>operator*\<close> is
  called on a non-null handle. One use is left out because the code does not support it:
  the copy assignment of a handle to itself when that handle holds the last credit of its
  object, which ends in a use after free.
\<close>

fun legal_observe :: "observer \<Rightarrow> href \<Rightarrow> world \<Rightarrow> bool" where
  "legal_observe Star h w = (\<not> holds_nothing w h)"
| "legal_observe Star_const h w = (\<not> holds_nothing w h)"
| "legal_observe (Eq_ref h2) h w = (refs w h \<noteq> None \<and> refs w h2 \<noteq> None)"
| "legal_observe (Ne_ref h2) h w = (refs w h \<noteq> None \<and> refs w h2 \<noteq> None)"
| "legal_observe ob h w = (refs w h \<noteq> None)"

fun legal :: "op \<Rightarrow> world \<Rightarrow> bool" where
  "legal (Construct_default this) w = (refs w this = None)"
| "legal (Construct_nullptr this) w = (refs w this = None)"
| "legal (Construct_adopt this p) w =
     (refs w this = None \<and> (case p of None \<Rightarrow> True | Some a \<Rightarrow> 0 < spare w a))"
| "legal (Construct_copy this cpfrom) w = (refs w this = None \<and> refs w cpfrom \<noteq> None)"
| "legal (Construct_move this mvfrom) w = (refs w this = None \<and> refs w mvfrom \<noteq> None)"
| "legal (Assign_copy this cpfrom) w =
     (refs w this \<noteq> None \<and> refs w cpfrom \<noteq> None \<and> \<not> (this = cpfrom \<and> last_credit w this))"
| "legal (Assign_move this mvfrom) w = (refs w this \<noteq> None \<and> refs w mvfrom \<noteq> None)"
| "legal (Destroy this) w = (refs w this \<noteq> None)"
| "legal (Escape this) w = (refs w this \<noteq> None)"
| "legal (Observe this ob) w = legal_observe ob this w"

text \<open>
  What an operation does to the number of spare credits of the object at \<open>a\<close>: adopting
  takes one, \<^verbatim>\<open>escape\<close> hands one out, everything else leaves it as it is.
\<close>

fun gain :: "op \<Rightarrow> world \<Rightarrow> addr \<Rightarrow> int" where
  "gain (Construct_adopt this p) w a = (if p = Some a then - 1 else 0)"
| "gain (Escape this) w a =
     (case refs w this of None \<Rightarrow> 0 | Some r \<Rightarrow> if m_ref r = Some a then 1 else 0)"
| "gain x w a = 0"

fun run :: "op list \<Rightarrow> world \<Rightarrow> fault + world" where
  "run [] w = Inr w"
| "run (x # xs) w = and_then (exec x w) (run xs)"

fun legal_run :: "op list \<Rightarrow> world \<Rightarrow> bool" where
  "legal_run [] w = True"
| "legal_run (x # xs) w =
     (legal x w \<and> (case exec x w of Inl e \<Rightarrow> False | Inr w' \<Rightarrow> legal_run xs w'))"

section \<open>Example states\<close>

text \<open>One handle, at address 0, that holds the only credit of the object at address 7.\<close>

definition sole_owner :: world where
  "sole_owner = \<lparr>refs = [0 \<mapsto> \<lparr>m_ref = Some 7\<rparr>], objs = [7 \<mapsto> 1], calls = []\<rparr>"

text \<open>No handle yet: the caller holds the only credit of the object at address 7.\<close>

definition raw_credit :: world where
  "raw_credit = \<lparr>refs = Map.empty, objs = [7 \<mapsto> 1], calls = []\<rparr>"

text \<open>Two handles, at addresses 0 and 1, each the sole owner of an object of its own.\<close>

definition two_objects :: world where
  "two_objects =
     \<lparr>refs = [0 \<mapsto> \<lparr>m_ref = Some 7\<rparr>, 1 \<mapsto> \<lparr>m_ref = Some 8\<rparr>],
      objs = [7 \<mapsto> 1, 8 \<mapsto> 1], calls = []\<rparr>"

text \<open>A null handle at address 0; the object at address 7 belongs to the caller.\<close>

definition null_handle :: world where
  "null_handle = \<lparr>refs = [0 \<mapsto> \<lparr>m_ref = None\<rparr>], objs = [7 \<mapsto> 1], calls = []\<rparr>"

section \<open>Basic facts\<close>

lemma and_then_Inr [simp]: "and_then (Inr x) f = f x"
  by (simp add: and_then_def)

lemma and_then_Inl [simp]: "and_then (Inl e) f = Inl e"
  by (simp add: and_then_def)

lemma get_m_ref_live [simp]: "refs w h = Some r \<Longrightarrow> get_m_ref h w = Inr (m_ref r)"
  by (simp add: get_m_ref_def)

lemma m_ref_update [simp]: "(r::scoped_ref)\<lparr>m_ref := p\<rparr> = \<lparr>m_ref = p\<rparr>"
  by (cases r) simp

lemma scoped_ref_eq_iff: "(r::scoped_ref) = \<lparr>m_ref = p\<rparr> \<longleftrightarrow> m_ref r = p"
  by (cases r) auto

lemma set_m_ref_eq:
  "set_m_ref h p w =
     (if refs w h = None then Inl (DanglingRef h)
      else Inr (w\<lparr>refs := (refs w)(h \<mapsto> \<lparr>m_ref = p\<rparr>)\<rparr>))"
  by (auto simp: set_m_ref_def split: option.splits)

lemma set_m_ref_live [simp]:
  "refs w h = Some r \<Longrightarrow> set_m_ref h p w = Inr (w\<lparr>refs := (refs w)(h \<mapsto> \<lparr>m_ref = p\<rparr>)\<rparr>)"
  by (simp add: set_m_ref_eq)

lemma Py_XDECREF_null [simp]: "Py_XDECREF None w = Inr w"
  by (simp add: Py_XDECREF_def)

lemma Py_XINCREF_null [simp]: "Py_XINCREF None w = Inr w"
  by (simp add: Py_XINCREF_def)

lemma Py_XDECREF_live:
  "objs w a = Some n \<Longrightarrow>
   Py_XDECREF (Some a) w =
     Inr (w\<lparr>objs := (if n = 1 then (objs w)(a := None) else (objs w)(a \<mapsto> n - 1)),
            calls := calls w @ [Release a]\<rparr>)"
  by (simp add: Py_XDECREF_def)

lemma Py_XINCREF_live:
  "objs w a = Some n \<Longrightarrow>
   Py_XINCREF (Some a) w = Inr (w\<lparr>objs := (objs w)(a \<mapsto> n + 1), calls := calls w @ [Retain a]\<rparr>)"
  by (simp add: Py_XINCREF_def)

lemma Py_XDECREF_refs_upd:
  "Py_XDECREF p w = Inr w' \<Longrightarrow> Py_XDECREF p (w\<lparr>refs := R\<rparr>) = Inr (w'\<lparr>refs := R\<rparr>)"
  by (auto simp: Py_XDECREF_def split: option.splits)

lemma Py_XINCREF_refs_upd:
  "Py_XINCREF p w = Inr w' \<Longrightarrow> Py_XINCREF p (w\<lparr>refs := R\<rparr>) = Inr (w'\<lparr>refs := R\<rparr>)"
  by (auto simp: Py_XINCREF_def split: option.splits)

lemma Py_XDECREF_release_of:
  assumes backed: "\<And>b. q = Some b \<Longrightarrow> objs w b \<noteq> None"
  shows "\<exists>w'. Py_XDECREF q w = Inr w' \<and> calls w' = calls w @ release_of q \<and> refs w' = refs w \<and>
              (\<forall>a n. objs w a = Some n \<and> (q = Some a \<longrightarrow> 2 \<le> n) \<longrightarrow> objs w' a \<noteq> None)"
proof (cases q)
  case None
  then show ?thesis by (simp add: release_of_def)
next
  case (Some b)
  then obtain m where m: "objs w b = Some m" using backed by blast
  show ?thesis using Some m by (auto simp: Py_XDECREF_live release_of_def)
qed

lemma refs_self_upd: "refs w h = Some r \<Longrightarrow> w\<lparr>refs := (refs w)(h \<mapsto> \<lparr>m_ref = m_ref r\<rparr>)\<rparr> = w"
proof -
  assume "refs w h = Some r"
  moreover have "r = \<lparr>m_ref = m_ref r\<rparr>" by (cases r) simp
  ultimately have "(refs w)(h \<mapsto> \<lparr>m_ref = m_ref r\<rparr>) = refs w" by (metis fun_upd_triv)
  then show ?thesis by simp
qed

section \<open>The operations on live handles\<close>

lemma dtor_null:
  "refs w h = Some r \<Longrightarrow> m_ref r = None \<Longrightarrow>
   scoped_ref_dtor h w = Inr (w\<lparr>refs := (refs w)(h := None)\<rparr>)"
  by (simp add: scoped_ref_dtor_def)

lemma dtor_live:
  "refs w h = Some r \<Longrightarrow> m_ref r = Some a \<Longrightarrow> objs w a = Some n \<Longrightarrow>
   scoped_ref_dtor h w =
     Inr (w\<lparr>objs := (if n = 1 then (objs w)(a := None) else (objs w)(a \<mapsto> n - 1)),
            calls := calls w @ [Release a],
            refs := (refs w)(h := None)\<rparr>)"
  by (simp add: scoped_ref_dtor_def Py_XDECREF_live)

lemma dtor_release_of:
  assumes live: "refs w h = Some r"
    and backed: "\<And>a. m_ref r = Some a \<Longrightarrow> objs w a \<noteq> None"
  shows "\<exists>w'. scoped_ref_dtor h w = Inr w' \<and> calls w' = calls w @ release_of (m_ref r)"
proof (cases "m_ref r")
  case None
  then show ?thesis using dtor_null [OF live] by (simp add: release_of_def)
next
  case (Some a)
  then obtain n where "objs w a = Some n" using backed by blast
  then show ?thesis using dtor_live [OF live Some] Some by (simp add: release_of_def)
qed

lemma escape_live:
  "refs w h = Some r \<Longrightarrow>
   escape h w = Inr (m_ref r, w\<lparr>refs := (refs w)(h \<mapsto> \<lparr>m_ref = None\<rparr>)\<rparr>)"
  by (simp add: escape_def)

lemma move_ctor_live:
  "refs w h = Some r \<Longrightarrow>
   scoped_ref_move this h w =
     Inr (w\<lparr>refs := (refs w)(this \<mapsto> \<lparr>m_ref = m_ref r\<rparr>, h \<mapsto> \<lparr>m_ref = None\<rparr>)\<rparr>)"
  by (simp add: scoped_ref_move_def init_m_ref_def set_m_ref_eq)

lemma copy_ctor_live:
  "refs w h = Some r \<Longrightarrow> m_ref r = Some a \<Longrightarrow> objs w a = Some n \<Longrightarrow>
   scoped_ref_copy this h w =
     Inr (w\<lparr>refs := (refs w)(this \<mapsto> \<lparr>m_ref = Some a\<rparr>),
            objs := (objs w)(a \<mapsto> n + 1),
            calls := calls w @ [Retain a]\<rparr>)"
  by (simp add: scoped_ref_copy_def init_m_ref_def get_m_ref_def Py_XINCREF_def)

lemma assign_move_empties_source:
  "operator_assign_move this h w = Inr w1 \<Longrightarrow> refs w1 h = Some \<lparr>m_ref = None\<rparr>"
  by (auto simp: operator_assign_move_def and_then_def get_m_ref_def set_m_ref_eq
           Py_XDECREF_def split: sum.splits option.splits if_splits)

lemma assign_move_live:
  assumes live: "refs w h = Some r" and live2: "refs w h2 = Some r2" and ne: "h2 \<noteq> h"
    and dec: "Py_XDECREF (m_ref r2) w = Inr w'"
  shows "operator_assign_move h2 h w =
           Inr (w'\<lparr>refs := (refs w)(h2 \<mapsto> \<lparr>m_ref = m_ref r\<rparr>, h \<mapsto> \<lparr>m_ref = None\<rparr>)\<rparr>)"
proof -
  have r': "refs w' = refs w"
    using dec by (auto simp: Py_XDECREF_def split: option.splits)
  show ?thesis
    using live live2 ne dec r'
    by (simp add: operator_assign_move_def get_m_ref_def set_m_ref_eq)
qed

lemma assign_move_self_live:
  "refs w h = Some r \<Longrightarrow> m_ref r = Some a \<Longrightarrow> objs w a = Some n \<Longrightarrow>
   operator_assign_move h h w =
     Inr (w\<lparr>objs := (if n = 1 then (objs w)(a := None) else (objs w)(a \<mapsto> n - 1)),
            calls := calls w @ [Release a],
            refs := (refs w)(h \<mapsto> \<lparr>m_ref = None\<rparr>)\<rparr>)"
  by (simp add: operator_assign_move_def Py_XDECREF_live get_m_ref_def set_m_ref_eq)

lemma assign_copy_self:
  assumes live: "refs w h = Some r" and a: "m_ref r = Some a" and n: "objs w a = Some n"
    and more: "n \<noteq> 1"
  shows "operator_assign_copy h h w = Inr (w\<lparr>calls := calls w @ [Release a, Retain a]\<rparr>)"
proof -
  have r: "(refs w)(h \<mapsto> \<lparr>m_ref = Some a\<rparr>) = refs w"
    using live a by (metis fun_upd_triv scoped_ref_eq_iff)
  have o: "(objs w)(a \<mapsto> n) = objs w" using n by (rule fun_upd_idem)
  show ?thesis
    using live a n more
    by (simp add: operator_assign_copy_def get_m_ref_def set_m_ref_eq Py_XDECREF_def
          Py_XINCREF_def r o)
qed

lemma operator_bool_live: "refs w h = Some r \<Longrightarrow> operator_bool h w = Inr (m_ref r \<noteq> None, w)"
  by (simp add: operator_bool_def)

lemma get_live: "refs w h = Some r \<Longrightarrow> get h w = Inr (m_ref r, w)"
  by (simp add: get_def)

lemma get_const_live: "refs w h = Some r \<Longrightarrow> get_const h w = Inr (m_ref r, w)"
  by (simp add: get_const_def)

lemma operator_eq_ptr_live:
  "refs w h = Some r \<Longrightarrow> operator_eq_ptr h q w = Inr (m_ref r = q, w)"
  by (simp add: operator_eq_ptr_def)

lemma operator_ne_ptr_live:
  "refs w h = Some r \<Longrightarrow> operator_ne_ptr h q w = Inr (m_ref r \<noteq> q, w)"
  by (simp add: operator_ne_ptr_def)

lemma operator_eq_ref_live:
  "refs w h = Some r \<Longrightarrow> refs w h2 = Some r2 \<Longrightarrow>
   operator_eq_ref h h2 w = Inr (m_ref r = m_ref r2, w)"
  by (simp add: operator_eq_ref_def get_const_live)

lemma operator_ne_ref_live:
  "refs w h = Some r \<Longrightarrow> refs w h2 = Some r2 \<Longrightarrow>
   operator_ne_ref h h2 w = Inr (m_ref r \<noteq> m_ref r2, w)"
  by (simp add: operator_ne_ref_def get_const_live)

lemma operator_star_frame: "operator_star h w = Inr (v, w') \<Longrightarrow> w' = w"
  by (auto simp: operator_star_def and_then_def split: sum.splits option.splits)

lemma operator_star_const_frame: "operator_star_const h w = Inr (v, w') \<Longrightarrow> w' = w"
  by (auto simp: operator_star_const_def and_then_def split: sum.splits option.splits)

lemma observe_frame:
  assumes "legal_observe ob h w"
  shows "observe ob h w = Inr w"
  using assms
  by (cases ob)
     (auto simp: discard_def get_def get_const_def operator_T_ptr_def operator_const_T_ptr_def
        operator_PyObject_ptr_def operator_const_PyObject_ptr_def operator_star_def
        operator_star_const_def operator_arrow_def operator_arrow_const_def operator_bool_def
        operator_eq_ptr_def operator_eq_ref_def operator_ne_ptr_def operator_ne_ref_def
        holds_nothing_def split: option.splits)

section \<open>Holders and their number\<close>

lemma mem_holders: "h \<in> holders w a \<longleftrightarrow> (\<exists>r. refs w h = Some r \<and> m_ref r = Some a)"
  by (simp add: holders_def)

lemma holders_finite: "finite (dom (refs w)) \<Longrightarrow> finite (holders w a)"
  by (rule finite_subset [of _ "dom (refs w)"]) (auto simp: holders_def)

lemma holders_refs_upd:
  "holders (w\<lparr>refs := (refs w)(h \<mapsto> \<lparr>m_ref = p\<rparr>)\<rparr>) a =
     (if p = Some a then insert h (holders w a) else holders w a - {h})"
  by (auto simp: holders_def)

lemma holders_refs_del: "holders (w\<lparr>refs := (refs w)(h := None)\<rparr>) a = holders w a - {h}"
  by (auto simp: holders_def)

lemma holders_objs_upd [simp]: "holders (w\<lparr>objs := ob\<rparr>) a = holders w a"
  by (simp add: holders_def)

lemma holders_calls_upd [simp]: "holders (w\<lparr>calls := cs\<rparr>) a = holders w a"
  by (simp add: holders_def)

lemma card_holders_upd:
  assumes fin: "finite (dom (refs w))"
  shows "int (card (holders (w\<lparr>refs := (refs w)(h \<mapsto> \<lparr>m_ref = p\<rparr>)\<rparr>) a)) =
           int (card (holders w a)) - (if h \<in> holders w a then 1 else 0)
             + (if p = Some a then 1 else 0)"
proof -
  have f: "finite (holders w a)" using fin by (rule holders_finite)
  have pos: "h \<in> holders w a \<Longrightarrow> 0 < card (holders w a)"
    using f by (auto simp: card_gt_0_iff)
  show ?thesis
  proof (cases "p = Some a")
    case True
    then have "holders (w\<lparr>refs := (refs w)(h \<mapsto> \<lparr>m_ref = p\<rparr>)\<rparr>) a = insert h (holders w a)"
      by (simp add: holders_refs_upd)
    then show ?thesis using f True pos by (simp add: card_insert_if)
  next
    case False
    then have "holders (w\<lparr>refs := (refs w)(h \<mapsto> \<lparr>m_ref = p\<rparr>)\<rparr>) a = holders w a - {h}"
      by (simp add: holders_refs_upd)
    then show ?thesis using f False pos
      by (cases "h \<in> holders w a") (simp_all add: of_nat_diff Suc_le_eq)
  qed
qed

lemma card_holders_del:
  assumes fin: "finite (dom (refs w))"
  shows "int (card (holders (w\<lparr>refs := (refs w)(h := None)\<rparr>) a)) =
           int (card (holders w a)) - (if h \<in> holders w a then 1 else 0)"
proof -
  have f: "finite (holders w a)" using fin by (rule holders_finite)
  have pos: "h \<in> holders w a \<Longrightarrow> 0 < card (holders w a)"
    using f by (auto simp: card_gt_0_iff)
  show ?thesis using f pos
    by (cases "h \<in> holders w a") (simp_all add: holders_refs_del of_nat_diff Suc_le_eq)
qed

lemma credits_ok_iff: "credits_ok w \<longleftrightarrow> finite (dom (refs w)) \<and> (\<forall>a. ok_at w a)"
  by (simp add: credits_ok_def ok_at_def)

lemma ok_at_iff:
  "finite (dom (refs w)) \<Longrightarrow>
   ok_at w a \<longleftrightarrow> (case objs w a of None \<Rightarrow> int (card (holders w a)) = 0
                              | Some n \<Rightarrow> int (card (holders w a)) \<le> n)"
  by (auto simp: ok_at_def holders_finite split: option.splits)

lemma credits_okD:
  assumes "credits_ok w"
  shows "finite (dom (refs w))" and "ok_at w a"
  using assms by (simp_all add: credits_ok_iff)

lemma credits_ok_calls_upd [simp]: "credits_ok (w\<lparr>calls := cs\<rparr>) = credits_ok w"
  by (simp add: credits_ok_def ok_at_def cong: option.case_cong)

lemma spare_calls_upd [simp]: "spare (w\<lparr>calls := cs\<rparr>) a = spare w a"
  by (simp add: spare_def cong: option.case_cong)

lemma holds_nothing_not_mem: "holds_nothing w h \<Longrightarrow> h \<notin> holders w a"
  by (auto simp: holds_nothing_def holders_def)

lemma fresh_holds_nothing: "refs w h = None \<Longrightarrow> holds_nothing w h"
  by (simp add: holds_nothing_def)

lemma holder_live:
  assumes "credits_ok w" and "refs w h = Some r" and "m_ref r = Some a"
  shows "\<exists>n. objs w a = Some n \<and> 1 \<le> n \<and> int (card (holders w a)) \<le> n"
proof -
  have mem: "h \<in> holders w a" using assms by (simp add: holders_def)
  have fin: "finite (holders w a)" using assms(1) by (simp add: credits_ok_def ok_at_def holders_finite)
  have "0 < card (holders w a)" using mem fin by (auto simp: card_gt_0_iff)
  moreover have "case objs w a of None \<Rightarrow> holders w a = {} | Some n \<Rightarrow> int (card (holders w a)) \<le> n"
    using assms(1) by (simp add: credits_ok_def ok_at_def)
  ultimately show ?thesis using mem by (cases "objs w a") auto
qed

lemma two_holders_live:
  assumes "credits_ok w" and "refs w h = Some r" and "m_ref r = Some a"
    and "refs w h' = Some r'" and "m_ref r' = Some a" and "h \<noteq> h'"
  shows "\<exists>n. objs w a = Some n \<and> 2 \<le> n"
proof -
  have sub: "{h, h'} \<subseteq> holders w a" using assms by (simp add: holders_def)
  have fin: "finite (holders w a)" using assms(1) by (simp add: credits_ok_def ok_at_def holders_finite)
  have "card {h, h'} \<le> card (holders w a)" using sub fin by (rule card_mono [rotated])
  then have "2 \<le> card (holders w a)" using assms(6) by simp
  moreover obtain n where "objs w a = Some n" "int (card (holders w a)) \<le> n"
    using holder_live [OF assms(1-3)] by blast
  ultimately show ?thesis by auto
qed

lemma spare_after_escape:
  assumes ok: "credits_ok w" and live: "refs w h = Some r" and a: "m_ref r = Some a"
  shows "spare (w\<lparr>refs := (refs w)(h \<mapsto> \<lparr>m_ref = None\<rparr>)\<rparr>) a = spare w a + 1"
    and "spare (w\<lparr>refs := (refs w)(h := None)\<rparr>) a = spare w a + 1"
proof -
  have mem: "h \<in> holders w a" using live a by (simp add: holders_def)
  have fin: "finite (holders w a)" using ok by (simp add: credits_ok_def ok_at_def holders_finite)
  have pos: "0 < card (holders w a)" using mem fin by (auto simp: card_gt_0_iff)
  obtain n where n: "objs w a = Some n" using holder_live [OF ok live a] by blast
  have c: "card (holders w a - {h}) = card (holders w a) - 1"
    using mem fin by simp
  show "spare (w\<lparr>refs := (refs w)(h \<mapsto> \<lparr>m_ref = None\<rparr>)\<rparr>) a = spare w a + 1"
    using n c pos by (simp add: spare_def holders_refs_upd)
  show "spare (w\<lparr>refs := (refs w)(h := None)\<rparr>) a = spare w a + 1"
    using n c pos by (simp add: spare_def holders_refs_del)
qed

lemma credits_ok_sole_owner: "credits_ok sole_owner"
  by (auto simp: credits_ok_def ok_at_def holders_def sole_owner_def split: option.splits)

lemma credits_ok_raw_credit: "credits_ok raw_credit"
  by (simp add: credits_ok_def ok_at_def holders_def raw_credit_def split: option.splits)

lemma credits_ok_two_objects: "credits_ok two_objects"
proof -
  have h: "holders two_objects a = (if a = 7 then {0} else if a = 8 then {1} else {})" for a
    by (auto simp: holders_def two_objects_def split: if_splits)
  have o: "objs two_objects a = (if a = 8 then Some 1 else if a = 7 then Some 1 else None)" for a
    by (simp add: two_objects_def)
  have f: "finite (dom (refs two_objects))"
    by (simp add: two_objects_def)
  show ?thesis
    unfolding credits_ok_def ok_at_def using f by (simp add: h o)
qed

section \<open>Every supported operation keeps the credit invariant\<close>

text \<open>A handle gives its credit up: the credit becomes spare.\<close>

lemma prim_escape:
  assumes ok: "credits_ok w" and live: "refs w h = Some r"
  defines "w' \<equiv> w\<lparr>refs := (refs w)(h \<mapsto> \<lparr>m_ref = None\<rparr>)\<rparr>"
  shows "credits_ok w'"
    and "spare w' a = spare w a + (if m_ref r = Some a then 1 else 0)"
proof -
  have fin: "finite (dom (refs w))" using ok by (rule credits_okD)
  have fin': "finite (dom (refs w'))" using fin by (simp add: w'_def)
  have mem: "h \<in> holders w b \<longleftrightarrow> m_ref r = Some b" for b
    using live by (simp add: mem_holders)
  have c: "int (card (holders w' b)) = int (card (holders w b)) - (if m_ref r = Some b then 1 else 0)" for b
    unfolding w'_def using card_holders_upd [OF fin, of h None b] mem by simp
  have o: "objs w' = objs w" by (simp add: w'_def)
  have "ok_at w' b" for b
    using credits_okD(2) [OF ok, of b] c [of b]
    by (simp add: ok_at_iff fin fin' o split: option.splits if_splits)
  then show "credits_ok w'" using fin' by (simp add: credits_ok_iff)
  show "spare w' a = spare w a + (if m_ref r = Some a then 1 else 0)"
    using c [of a] holder_live [OF ok live, of a]
    by (auto simp: spare_def o split: option.splits)
qed

text \<open>A handle that holds nothing takes a spare credit.\<close>

lemma prim_adopt:
  assumes ok: "credits_ok w" and empty: "holds_nothing w h"
    and credit: "\<And>a. p = Some a \<Longrightarrow> 0 < spare w a"
  defines "w' \<equiv> w\<lparr>refs := (refs w)(h \<mapsto> \<lparr>m_ref = p\<rparr>)\<rparr>"
  shows "credits_ok w'"
    and "spare w' a = spare w a - (if p = Some a then 1 else 0)"
proof -
  have fin: "finite (dom (refs w))" using ok by (rule credits_okD)
  have fin': "finite (dom (refs w'))" using fin by (simp add: w'_def)
  have c: "int (card (holders w' b)) = int (card (holders w b)) + (if p = Some b then 1 else 0)" for b
    unfolding w'_def using card_holders_upd [OF fin, of h p b] holds_nothing_not_mem [OF empty, of b]
    by simp
  have o: "objs w' = objs w" by (simp add: w'_def)
  have "ok_at w' b" for b
    using credits_okD(2) [OF ok, of b] c [of b] credit [of b]
    by (auto simp: ok_at_iff fin fin' o spare_def split: option.splits if_splits)
  then show "credits_ok w'" using fin' by (simp add: credits_ok_iff)
  show "spare w' a = spare w a - (if p = Some a then 1 else 0)"
    using c [of a] credit [of a]
    by (auto simp: spare_def o split: option.splits)
qed

text \<open>A handle that holds nothing stops existing.\<close>

lemma prim_remove:
  assumes ok: "credits_ok w" and empty: "holds_nothing w h"
  defines "w' \<equiv> w\<lparr>refs := (refs w)(h := None)\<rparr>"
  shows "credits_ok w'" and "spare w' a = spare w a"
proof -
  have fin: "finite (dom (refs w))" using ok by (rule credits_okD)
  have fin': "finite (dom (refs w'))" using fin by (simp add: w'_def)
  have c: "int (card (holders w' b)) = int (card (holders w b))" for b
    unfolding w'_def using card_holders_del [OF fin, of h b] holds_nothing_not_mem [OF empty, of b]
    by simp
  have o: "objs w' = objs w" by (simp add: w'_def)
  have "ok_at w' b" for b
    using credits_okD(2) [OF ok, of b] c [of b]
    by (simp add: ok_at_iff fin fin' o split: option.splits)
  then show "credits_ok w'" using fin' by (simp add: credits_ok_iff)
  show "spare w' a = spare w a"
    using c [of a] by (simp add: spare_def o split: option.splits)
qed

text \<open>A retain of a live object makes a spare credit.\<close>

lemma prim_retain:
  assumes ok: "credits_ok w" and alive: "\<And>a. p = Some a \<Longrightarrow> objs w a \<noteq> None"
  shows "\<exists>w'. Py_XINCREF p w = Inr w' \<and> refs w' = refs w \<and>
              calls w' = calls w @ (case p of None \<Rightarrow> [] | Some a \<Rightarrow> [Retain a]) \<and>
              credits_ok w' \<and>
              (\<forall>a. spare w' a = spare w a + (if p = Some a then 1 else 0))"
proof (cases p)
  case None
  then show ?thesis using ok by simp
next
  case (Some b)
  then obtain n where n: "objs w b = Some n" using alive by blast
  let ?w' = "w\<lparr>objs := (objs w)(b \<mapsto> n + 1), calls := calls w @ [Retain b]\<rparr>"
  have inc: "Py_XINCREF p w = Inr ?w'" using Some n by (simp add: Py_XINCREF_live)
  have fin: "finite (dom (refs w))" using ok by (rule credits_okD)
  have "ok_at ?w' a" for a
    using credits_okD(2) [OF ok, of a] n
    by (auto simp: ok_at_def split: option.splits)
  then have ok': "credits_ok ?w'" using fin by (simp add: credits_ok_iff)
  have sp: "\<forall>a. spare ?w' a = spare w a + (if p = Some a then 1 else 0)"
    using n Some by (auto simp: spare_def split: option.splits)
  show ?thesis using inc ok' sp Some by simp
qed

text \<open>A release of a spare credit.\<close>

lemma prim_release:
  assumes ok: "credits_ok w" and credit: "\<And>a. p = Some a \<Longrightarrow> 0 < spare w a"
  shows "\<exists>w'. Py_XDECREF p w = Inr w' \<and> refs w' = refs w \<and>
              calls w' = calls w @ release_of p \<and>
              credits_ok w' \<and>
              (\<forall>a. spare w' a = spare w a - (if p = Some a then 1 else 0))"
proof (cases p)
  case None
  then show ?thesis using ok by (simp add: release_of_def)
next
  case (Some b)
  then have sb: "0 < spare w b" using credit by blast
  then obtain n where n: "objs w b = Some n"
    by (cases "objs w b") (simp_all add: spare_def)
  have lt: "int (card (holders w b)) < n" using sb n by (simp add: spare_def)
  let ?w' = "w\<lparr>objs := (if n = 1 then (objs w)(b := None) else (objs w)(b \<mapsto> n - 1)),
               calls := calls w @ [Release b]\<rparr>"
  have dec: "Py_XDECREF p w = Inr ?w'" using Some n by (simp add: Py_XDECREF_live)
  have fin: "finite (dom (refs w))" using ok by (rule credits_okD)
  have e: "n = 1 \<Longrightarrow> holders w b = {}"
    using lt holders_finite [OF fin, of b] by simp
  have "ok_at ?w' a" for a
    using credits_okD(2) [OF ok, of a] n lt e
    by (auto simp: ok_at_def split: option.splits)
  then have ok': "credits_ok ?w'" using fin by (simp add: credits_ok_iff)
  have sp: "\<forall>a. spare ?w' a = spare w a - (if p = Some a then 1 else 0)"
    using n Some lt e by (auto simp: spare_def split: option.splits)
  show ?thesis using dec ok' sp Some by (simp add: release_of_def)
qed

text \<open>Release of the credit a handle holds, the handle left null.\<close>

lemma drop_credit:
  assumes ok: "credits_ok w" and live: "refs w h = Some r"
  shows "\<exists>w1. Py_XDECREF (m_ref r) w = Inr w1 \<and> refs w1 = refs w \<and>
              calls w1 = calls w @ release_of (m_ref r) \<and>
              credits_ok (w1\<lparr>refs := (refs w)(h \<mapsto> \<lparr>m_ref = None\<rparr>)\<rparr>) \<and>
              (\<forall>a. spare (w1\<lparr>refs := (refs w)(h \<mapsto> \<lparr>m_ref = None\<rparr>)\<rparr>) a = spare w a)"
proof -
  let ?R = "(refs w)(h \<mapsto> \<lparr>m_ref = None\<rparr>)"
  let ?v = "w\<lparr>refs := ?R\<rparr>"
  have okv: "credits_ok ?v"
    and spv: "\<And>a. spare ?v a = spare w a + (if m_ref r = Some a then 1 else 0)"
    using prim_escape [OF ok live] by simp_all
  have "0 < spare ?v a" if "m_ref r = Some a" for a
  proof -
    have "0 \<le> spare w a"
      using holder_live [OF ok live that] by (auto simp: spare_def)
    then show ?thesis using spv [of a] that by simp
  qed
  then obtain v' where dec: "Py_XDECREF (m_ref r) ?v = Inr v'" and rv: "refs v' = refs ?v"
      and cv: "calls v' = calls ?v @ release_of (m_ref r)" and okv': "credits_ok v'"
      and spv': "\<forall>a. spare v' a = spare ?v a - (if m_ref r = Some a then 1 else 0)"
    using prim_release [OF okv, of "m_ref r"] by blast
  have "objs w a \<noteq> None" if "m_ref r = Some a" for a
    using holder_live [OF ok live that] by auto
  then obtain w1 where dec1: "Py_XDECREF (m_ref r) w = Inr w1"
      and r1: "refs w1 = refs w" and c1: "calls w1 = calls w @ release_of (m_ref r)"
    using Py_XDECREF_release_of [of "m_ref r" w] by blast
  have "v' = w1\<lparr>refs := ?R\<rparr>"
    using Py_XDECREF_refs_upd [OF dec1, of ?R] dec by simp
  then show ?thesis using dec1 r1 c1 okv' spv' spv by auto
qed

lemma default_ctor_credits:
  assumes ok: "credits_ok w" and fresh: "refs w this = None"
  shows "credits_ok (init_m_ref this None w)" and "spare (init_m_ref this None w) a = spare w a"
  using prim_adopt [OF ok fresh_holds_nothing [OF fresh], of None]
  by (simp_all add: init_m_ref_def)

lemma adopt_ctor_credits:
  assumes ok: "credits_ok w" and fresh: "refs w this = None"
    and credit: "\<And>a. p = Some a \<Longrightarrow> 0 < spare w a"
  shows "credits_ok (init_m_ref this p w)"
    and "spare (init_m_ref this p w) a = spare w a - (if p = Some a then 1 else 0)"
  using prim_adopt [OF ok fresh_holds_nothing [OF fresh] credit]
  by (simp_all add: init_m_ref_def)

lemma copy_ctor_credits:
  assumes ok: "credits_ok w" and fresh: "refs w this = None" and live: "refs w src = Some r"
  shows "\<exists>w'. scoped_ref_copy this src w = Inr w' \<and> credits_ok w' \<and>
              (\<forall>a. spare w' a = spare w a)"
proof -
  have "objs w a \<noteq> None" if "m_ref r = Some a" for a
    using holder_live [OF ok live that] by auto
  then obtain v where inc: "Py_XINCREF (m_ref r) w = Inr v" and rv: "refs v = refs w"
      and okv: "credits_ok v"
      and spv: "\<forall>a. spare v a = spare w a + (if m_ref r = Some a then 1 else 0)"
    using prim_retain [OF ok, of "m_ref r"] by blast
  have empty: "holds_nothing v this" using fresh rv by (simp add: holds_nothing_def)
  have credit: "0 < spare v a" if "m_ref r = Some a" for a
  proof -
    have "0 \<le> spare w a"
      using holder_live [OF ok live that] by (auto simp: spare_def)
    then show ?thesis using spv that by simp
  qed
  let ?w' = "v\<lparr>refs := (refs v)(this \<mapsto> \<lparr>m_ref = m_ref r\<rparr>)\<rparr>"
  have ok': "credits_ok ?w'"
    and sp': "\<And>a. spare ?w' a = spare v a - (if m_ref r = Some a then 1 else 0)"
    using prim_adopt [OF okv empty credit] by simp_all
  have "scoped_ref_copy this src w = Inr ?w'"
    using live Py_XINCREF_refs_upd [OF inc, of "(refs w)(this \<mapsto> \<lparr>m_ref = m_ref r\<rparr>)"] rv
    by (simp add: scoped_ref_copy_def init_m_ref_def get_m_ref_def)
  then show ?thesis using ok' sp' spv by auto
qed

lemma transfer_credits:
  assumes ok: "credits_ok w" and empty: "holds_nothing w this" and live: "refs w src = Some r"
    and ne: "this \<noteq> src"
  defines "w' \<equiv> w\<lparr>refs := (refs w)(this \<mapsto> \<lparr>m_ref = m_ref r\<rparr>, src \<mapsto> \<lparr>m_ref = None\<rparr>)\<rparr>"
  shows "credits_ok w'" and "spare w' a = spare w a"
proof -
  let ?v = "w\<lparr>refs := (refs w)(src \<mapsto> \<lparr>m_ref = None\<rparr>)\<rparr>"
  have okv: "credits_ok ?v"
    and spv: "\<And>a. spare ?v a = spare w a + (if m_ref r = Some a then 1 else 0)"
    using prim_escape [OF ok live] by simp_all
  have emptyv: "holds_nothing ?v this" using empty ne by (simp add: holds_nothing_def)
  have credit: "0 < spare ?v a" if "m_ref r = Some a" for a
  proof -
    have "0 \<le> spare w a"
      using holder_live [OF ok live that] by (auto simp: spare_def)
    then show ?thesis using spv that by simp
  qed
  have eq: "w' = ?v\<lparr>refs := (refs ?v)(this \<mapsto> \<lparr>m_ref = m_ref r\<rparr>)\<rparr>"
    using ne by (simp add: w'_def fun_upd_twist)
  show "credits_ok w'" unfolding eq using prim_adopt(1) [OF okv emptyv credit] by simp
  show "spare w' a = spare w a"
    unfolding eq using prim_adopt(2) [OF okv emptyv credit, of "m_ref r" a] spv [of a] by simp
qed

lemma move_ctor_credits:
  assumes ok: "credits_ok w" and fresh: "refs w this = None" and live: "refs w src = Some r"
  shows "\<exists>w'. scoped_ref_move this src w = Inr w' \<and> credits_ok w' \<and>
              (\<forall>a. spare w' a = spare w a)"
proof -
  have ne: "this \<noteq> src" using fresh live by auto
  show ?thesis
    using move_ctor_live [OF live, of this]
      transfer_credits [OF ok fresh_holds_nothing [OF fresh] live ne]
    by simp
qed

lemma dtor_credits:
  assumes ok: "credits_ok w" and live: "refs w h = Some r"
  shows "\<exists>w'. scoped_ref_dtor h w = Inr w' \<and> credits_ok w' \<and> (\<forall>a. spare w' a = spare w a)"
proof -
  let ?R = "(refs w)(h \<mapsto> \<lparr>m_ref = None\<rparr>)"
  obtain w1 where dec: "Py_XDECREF (m_ref r) w = Inr w1" and r1: "refs w1 = refs w"
      and ok1: "credits_ok (w1\<lparr>refs := ?R\<rparr>)"
      and sp1: "\<forall>a. spare (w1\<lparr>refs := ?R\<rparr>) a = spare w a"
    using drop_credit [OF ok live] by blast
  have empty: "holds_nothing (w1\<lparr>refs := ?R\<rparr>) h" by (simp add: holds_nothing_def)
  have eq: "(w1\<lparr>refs := ?R\<rparr>)\<lparr>refs := (refs (w1\<lparr>refs := ?R\<rparr>))(h := None)\<rparr> =
            w1\<lparr>refs := (refs w1)(h := None)\<rparr>"
    by (simp add: r1)
  have d: "scoped_ref_dtor h w = Inr (w1\<lparr>refs := (refs w1)(h := None)\<rparr>)"
    using live dec by (simp add: scoped_ref_dtor_def)
  show ?thesis
    using d prim_remove [OF ok1 empty] sp1 unfolding eq by simp
qed

lemma assign_move_credits:
  assumes ok: "credits_ok w" and live: "refs w this = Some r" and live2: "refs w src = Some r2"
  shows "\<exists>w'. operator_assign_move this src w = Inr w' \<and> credits_ok w' \<and>
              (\<forall>a. spare w' a = spare w a)"
proof -
  let ?R = "(refs w)(this \<mapsto> \<lparr>m_ref = None\<rparr>)"
  obtain w1 where dec: "Py_XDECREF (m_ref r) w = Inr w1" and r1: "refs w1 = refs w"
      and ok1: "credits_ok (w1\<lparr>refs := ?R\<rparr>)"
      and sp1: "\<forall>a. spare (w1\<lparr>refs := ?R\<rparr>) a = spare w a"
    using drop_credit [OF ok live] by blast
  show ?thesis
  proof (cases "this = src")
    case True
    have "operator_assign_move this src w = Inr (w1\<lparr>refs := ?R\<rparr>)"
      using True live dec r1
      by (simp add: operator_assign_move_def get_m_ref_def set_m_ref_eq)
    then show ?thesis using ok1 sp1 by simp
  next
    case False
    let ?v = "w1\<lparr>refs := ?R\<rparr>"
    have mv: "operator_assign_move this src w =
                Inr (w1\<lparr>refs := (refs w)(this \<mapsto> \<lparr>m_ref = m_ref r2\<rparr>, src \<mapsto> \<lparr>m_ref = None\<rparr>)\<rparr>)"
      using assign_move_live [OF live2 live False dec] .
    have empty: "holds_nothing ?v this" by (simp add: holds_nothing_def)
    have lv: "refs ?v src = Some r2" using live2 False by simp
    have eq: "?v\<lparr>refs := (refs ?v)(this \<mapsto> \<lparr>m_ref = m_ref r2\<rparr>, src \<mapsto> \<lparr>m_ref = None\<rparr>)\<rparr> =
              w1\<lparr>refs := (refs w)(this \<mapsto> \<lparr>m_ref = m_ref r2\<rparr>, src \<mapsto> \<lparr>m_ref = None\<rparr>)\<rparr>"
      by simp
    show ?thesis
      using mv transfer_credits [OF ok1 empty lv False] sp1 unfolding eq by simp
  qed
qed

lemma assign_copy_credits:
  assumes ok: "credits_ok w" and live: "refs w this = Some r" and live2: "refs w src = Some r2"
    and legal: "\<not> (this = src \<and> last_credit w this)"
  shows "\<exists>w'. operator_assign_copy this src w = Inr w' \<and> credits_ok w' \<and>
              (\<forall>a. spare w' a = spare w a)"
proof (cases "this = src")
  case True
  show ?thesis
  proof (cases "m_ref r")
    case None
    have "operator_assign_copy this src w = Inr (w\<lparr>refs := (refs w)(this \<mapsto> \<lparr>m_ref = m_ref r\<rparr>)\<rparr>)"
      using True live None
      by (simp add: operator_assign_copy_def get_m_ref_def set_m_ref_eq)
    then show ?thesis using ok refs_self_upd [OF live] by simp
  next
    case (Some a)
    obtain n where n: "objs w a = Some n" using holder_live [OF ok live Some] by blast
    have "n \<noteq> 1" using legal True live Some n by (simp add: last_credit_def)
    then show ?thesis
      using assign_copy_self [OF live Some n] True ok by simp
  qed
next
  case False
  let ?R = "(refs w)(this \<mapsto> \<lparr>m_ref = None\<rparr>)"
  obtain w1 where dec: "Py_XDECREF (m_ref r) w = Inr w1" and r1: "refs w1 = refs w"
      and ok1: "credits_ok (w1\<lparr>refs := ?R\<rparr>)"
      and sp1: "\<forall>a. spare (w1\<lparr>refs := ?R\<rparr>) a = spare w a"
    using drop_credit [OF ok live] by blast
  let ?v = "w1\<lparr>refs := ?R\<rparr>"
  have lv: "refs ?v src = Some r2" using live2 False by simp
  have alive: "objs ?v a \<noteq> None" if "m_ref r2 = Some a" for a
    using holder_live [OF ok1 lv that] by auto
  then obtain v' where inc: "Py_XINCREF (m_ref r2) ?v = Inr v'" and rv': "refs v' = refs ?v"
      and okv': "credits_ok v'"
      and spv': "\<forall>a. spare v' a = spare ?v a + (if m_ref r2 = Some a then 1 else 0)"
    using prim_retain [OF ok1, of "m_ref r2"] by blast
  have empty: "holds_nothing v' this" using rv' by (simp add: holds_nothing_def)
  have credit: "0 < spare v' a" if "m_ref r2 = Some a" for a
  proof -
    have "0 \<le> spare ?v a"
      using holder_live [OF ok1 lv that] by (auto simp: spare_def)
    then show ?thesis using spv' that by simp
  qed
  let ?w' = "v'\<lparr>refs := (refs v')(this \<mapsto> \<lparr>m_ref = m_ref r2\<rparr>)\<rparr>"
  have ok': "credits_ok ?w'"
    and sp': "\<And>a. spare ?w' a = spare v' a - (if m_ref r2 = Some a then 1 else 0)"
    using prim_adopt [OF okv' empty credit] by simp_all
  have "Py_XINCREF (m_ref r2) (w1\<lparr>refs := (refs w)(this \<mapsto> \<lparr>m_ref = m_ref r2\<rparr>)\<rparr>) = Inr ?w'"
    using Py_XINCREF_refs_upd [OF inc, of "(refs w)(this \<mapsto> \<lparr>m_ref = m_ref r2\<rparr>)"] rv'
    by simp
  then have "operator_assign_copy this src w = Inr ?w'"
    using live live2 dec r1
    by (simp add: operator_assign_copy_def get_m_ref_def set_m_ref_eq)
  then show ?thesis using ok' sp' spv' sp1 by auto
qed

text \<open>
  In a state that satisfies the credit invariant, every supported use of every operation
  returns, in a state that satisfies the invariant again, and the spare credits change
  only where a credit enters a handle (adoption) or leaves one (\<^verbatim>\<open>escape\<close>): no
  operation loses a credit or releases one twice. The same holds along any run of
  supported uses.
\<close>

lemma exec_keeps_credits:
  assumes ok: "credits_ok w" and legal: "legal x w"
  shows "\<exists>w'. exec x w = Inr w' \<and> credits_ok w' \<and> (\<forall>a. spare w' a = spare w a + gain x w a)"
proof (cases x)
  case (Construct_default this)
  then show ?thesis
    using legal default_ctor_credits [OF ok, of this] by (simp add: scoped_ref_default_def)
next
  case (Construct_nullptr this)
  then show ?thesis
    using legal default_ctor_credits [OF ok, of this] by (simp add: scoped_ref_nullptr_def)
next
  case (Construct_adopt this p)
  then have fresh: "refs w this = None" and credit: "\<And>a. p = Some a \<Longrightarrow> 0 < spare w a"
    using legal by auto
  show ?thesis
    using Construct_adopt adopt_ctor_credits [OF ok fresh credit]
    by (simp add: scoped_ref_adopt_def)
next
  case (Construct_copy this cpfrom)
  then obtain r where "refs w this = None" "refs w cpfrom = Some r" using legal by auto
  then show ?thesis using Construct_copy copy_ctor_credits [OF ok] by simp
next
  case (Construct_move this mvfrom)
  then obtain r where "refs w this = None" "refs w mvfrom = Some r" using legal by auto
  then show ?thesis using Construct_move move_ctor_credits [OF ok] by simp
next
  case (Assign_copy this cpfrom)
  then obtain r r2 where "refs w this = Some r" "refs w cpfrom = Some r2"
      "\<not> (this = cpfrom \<and> last_credit w this)"
    using legal by auto
  then show ?thesis using Assign_copy assign_copy_credits [OF ok] by simp
next
  case (Assign_move this mvfrom)
  then obtain r r2 where "refs w this = Some r" "refs w mvfrom = Some r2" using legal by auto
  then show ?thesis using Assign_move assign_move_credits [OF ok] by simp
next
  case (Destroy this)
  then obtain r where "refs w this = Some r" using legal by auto
  then show ?thesis using Destroy dtor_credits [OF ok] by simp
next
  case (Escape this)
  then obtain r where live: "refs w this = Some r" using legal by auto
  show ?thesis
    using Escape live escape_live [OF live] prim_escape [OF ok live]
    by (simp add: discard_def)
next
  case (Observe this ob)
  then show ?thesis using legal ok observe_frame [of ob this w] by simp
qed

lemma run_keeps_credits:
  "credits_ok w \<Longrightarrow> legal_run xs w \<Longrightarrow> \<exists>w'. run xs w = Inr w' \<and> credits_ok w'"
proof (induction xs arbitrary: w)
  case Nil
  then show ?case by simp
next
  case (Cons x xs)
  then have lx: "legal x w" by simp
  obtain w1 where e: "exec x w = Inr w1" and ok1: "credits_ok w1"
    using exec_keeps_credits [OF Cons.prems(1) lx] by blast
  have "legal_run xs w1" using Cons.prems(2) e by simp
  then show ?case using Cons.IH [OF ok1] e by simp
qed

section \<open>Copy assignment to itself\<close>

text \<open>
  Claim C1. \<^verbatim>\<open>operator=(const scoped_ref&)\<close> releases the old pointer before it retains
  the new one and has no check for equal pointers. For \<^verbatim>\<open>h = h\<close>, where \<open>h\<close> holds the
  only credit of its object, the release drops the count to zero and frees the object;
  the retain that follows is applied to the freed object. The claim (the handle stays
  valid, the count is unchanged, the object is never freed early) does not hold there.
\<close>

theorem self_copy_assign_use_after_free:
  "operator_assign_copy 0 0 sole_owner = Inl (UseAfterFree 7)"
  by (simp add: operator_assign_copy_def sole_owner_def get_m_ref_def set_m_ref_eq
        Py_XDECREF_def Py_XINCREF_def)

text \<open>
  Claim C2. Every supported use of every operation keeps the invariants (lemma
  \<open>exec_keeps_credits\<close>), with one exception in the code. The caller holds the only
  credit of a new object, and the state satisfies the invariants; a handle adopts the
  pointer, a supported use, and the state satisfies the invariants again, the handle
  holding exactly that credit. The copy assignment of the handle to itself then frees the
  object while the handle still stores its address: the handle's pointer is non-null with
  no credit behind it, and the assignment ends in a use after free.
\<close>

theorem adopt_then_self_copy_assign_faults:
  "credits_ok raw_credit \<and>
   legal (Construct_adopt 0 (Some 7)) raw_credit \<and>
   exec (Construct_adopt 0 (Some 7)) raw_credit = Inr sole_owner \<and>
   credits_ok sole_owner \<and>
   run [Construct_adopt 0 (Some 7), Assign_copy 0 0] raw_credit = Inl (UseAfterFree 7)"
proof -
  have sp: "0 < spare raw_credit 7"
    by (simp add: spare_def raw_credit_def holders_def)
  have lg: "legal (Construct_adopt 0 (Some 7)) raw_credit"
    using sp by (simp add: raw_credit_def)
  have ad: "exec (Construct_adopt 0 (Some 7)) raw_credit = Inr sole_owner"
    by (simp add: scoped_ref_adopt_def init_m_ref_def raw_credit_def sole_owner_def)
  have bad: "operator_assign_copy 0 0 sole_owner = Inl (UseAfterFree 7)"
    by (simp add: operator_assign_copy_def sole_owner_def get_m_ref_def set_m_ref_eq
          Py_XDECREF_def Py_XINCREF_def)
  have "run [Construct_adopt 0 (Some 7), Assign_copy 0 0] raw_credit = Inl (UseAfterFree 7)"
    using ad bad by simp
  then show ?thesis using credits_ok_raw_credit lg ad credits_ok_sole_owner by simp
qed

section \<open>Copy construction\<close>

text \<open>
  Claim C3. Let \<open>h\<close> be a live handle with a non-null pointer \<open>a\<close>, in a state that
  satisfies the credit invariant. Copy-constructing a new handle from \<open>h\<close> performs exactly
  one retain, of \<open>a\<close>, so the reference count goes up by one; the new handle stores \<open>a\<close>;
  \<open>h\<close> is unchanged. Destroying the two handles, in either order, performs exactly one
  release of \<open>a\<close> each, and after the first destruction the other handle is still there
  and its object still alive.
\<close>

theorem copy_ctor_one_retain_two_releases:
  assumes ok: "credits_ok w" and live: "refs w h = Some r" and a: "m_ref r = Some a"
    and new: "this \<noteq> h"
  shows "\<exists>n w1. objs w a = Some n \<and>
           scoped_ref_copy this h w = Inr w1 \<and>
           calls w1 = calls w @ [Retain a] \<and>
           objs w1 a = Some (n + 1) \<and>
           refs w1 this = Some \<lparr>m_ref = Some a\<rparr> \<and>
           refs w1 h = refs w h \<and>
           (\<exists>w2 w3. scoped_ref_dtor this w1 = Inr w2 \<and>
                    calls w2 = calls w1 @ [Release a] \<and>
                    refs w2 h = refs w h \<and> objs w2 a = Some n \<and>
                    scoped_ref_dtor h w2 = Inr w3 \<and>
                    calls w3 = calls w2 @ [Release a]) \<and>
           (\<exists>w2 w3. scoped_ref_dtor h w1 = Inr w2 \<and>
                    calls w2 = calls w1 @ [Release a] \<and>
                    refs w2 this = Some \<lparr>m_ref = Some a\<rparr> \<and> objs w2 a = Some n \<and>
                    scoped_ref_dtor this w2 = Inr w3 \<and>
                    calls w3 = calls w2 @ [Release a])"
proof -
  obtain n where n: "objs w a = Some n" and pos: "1 \<le> n"
    using holder_live [OF ok live a] by blast
  let ?w1 = "w\<lparr>refs := (refs w)(this \<mapsto> \<lparr>m_ref = Some a\<rparr>),
               objs := (objs w)(a \<mapsto> n + 1),
               calls := calls w @ [Retain a]\<rparr>"
  have copy: "scoped_ref_copy this h w = Inr ?w1"
    using live a n by (rule copy_ctor_live)
  have l1_this: "refs ?w1 this = Some \<lparr>m_ref = Some a\<rparr>" by simp
  have l1_h: "refs ?w1 h = Some r" using live new by simp
  have n1: "objs ?w1 a = Some (n + 1)" by simp
  have ne: "n + 1 \<noteq> 1" using pos by simp
  \<comment> \<open>the copy first, then the original\<close>
  let ?w2 = "?w1\<lparr>objs := (objs ?w1)(a \<mapsto> n), calls := calls ?w1 @ [Release a],
                  refs := (refs ?w1)(this := None)\<rparr>"
  have d2: "scoped_ref_dtor this ?w1 = Inr ?w2"
    using dtor_live [OF l1_this _ n1] ne by simp
  have l2_h: "refs ?w2 h = Some r" using live new by simp
  have n2: "objs ?w2 a = Some n" by simp
  obtain w3 where d3: "scoped_ref_dtor h ?w2 = Inr w3" "calls w3 = calls ?w2 @ [Release a]"
    using dtor_live [OF l2_h a n2] by simp
  \<comment> \<open>the original first, then the copy\<close>
  let ?v2 = "?w1\<lparr>objs := (objs ?w1)(a \<mapsto> n), calls := calls ?w1 @ [Release a],
                  refs := (refs ?w1)(h := None)\<rparr>"
  have e2: "scoped_ref_dtor h ?w1 = Inr ?v2"
    using dtor_live [OF l1_h a n1] ne by simp
  have m2_this: "refs ?v2 this = Some \<lparr>m_ref = Some a\<rparr>" using new by simp
  have k2: "objs ?v2 a = Some n" by simp
  obtain v3 where e3: "scoped_ref_dtor this ?v2 = Inr v3" "calls v3 = calls ?v2 @ [Release a]"
    using dtor_live [OF m2_this _ k2] by simp
  have first: "\<exists>w2 w3. scoped_ref_dtor this ?w1 = Inr w2 \<and>
                    calls w2 = calls ?w1 @ [Release a] \<and>
                    refs w2 h = refs w h \<and> objs w2 a = Some n \<and>
                    scoped_ref_dtor h w2 = Inr w3 \<and>
                    calls w3 = calls w2 @ [Release a]"
    using d2 d3 l2_h live n2 by (intro exI [of _ ?w2] exI [of _ w3]) simp
  have second: "\<exists>w2 w3. scoped_ref_dtor h ?w1 = Inr w2 \<and>
                    calls w2 = calls ?w1 @ [Release a] \<and>
                    refs w2 this = Some \<lparr>m_ref = Some a\<rparr> \<and> objs w2 a = Some n \<and>
                    scoped_ref_dtor this w2 = Inr w3 \<and>
                    calls w3 = calls w2 @ [Release a]"
    using e2 e3 m2_this k2 by (intro exI [of _ ?v2] exI [of _ v3]) simp
  show ?thesis
    using n copy l1_this l1_h live first second by (intro exI [of _ n] exI [of _ ?w1]) simp
qed

theorem copy_ctor_one_retain_two_releases_witness:
  "credits_ok sole_owner \<and> refs sole_owner 0 = Some \<lparr>m_ref = Some 7\<rparr> \<and>
   (\<exists>w1. scoped_ref_copy 1 0 sole_owner = Inr w1 \<and>
         calls w1 = [Retain 7] \<and> objs w1 7 = Some 2 \<and>
         refs w1 1 = Some \<lparr>m_ref = Some 7\<rparr> \<and>
         refs w1 0 = Some \<lparr>m_ref = Some 7\<rparr> \<and>
         (\<exists>w2 w3. scoped_ref_dtor 1 w1 = Inr w2 \<and> calls w2 = [Retain 7, Release 7] \<and>
                  objs w2 7 = Some 1 \<and>
                  scoped_ref_dtor 0 w2 = Inr w3 \<and>
                  calls w3 = [Retain 7, Release 7, Release 7]))"
proof -
  have live: "refs sole_owner 0 = Some \<lparr>m_ref = Some 7\<rparr>"
    and c: "calls sole_owner = []" "objs sole_owner 7 = Some 1"
    by (simp_all add: sole_owner_def)
  have a: "m_ref \<lparr>m_ref = Some (7::nat)\<rparr> = Some 7" by simp
  have new: "(1::nat) \<noteq> 0" by simp
  show ?thesis
    using copy_ctor_one_retain_two_releases [OF credits_ok_sole_owner live a new]
      live credits_ok_sole_owner c
    by auto
qed

section \<open>Move\<close>

text \<open>
  Claim C4, as amended. Let \<open>h\<close> be a live handle and \<open>h2\<close> another one, in a state that
  satisfies the credit invariant. Move-constructing \<open>h2\<close> from \<open>h\<close> leaves \<open>h\<close> null (its
  boolean test is false) and \<open>h2\<close> with the pointer \<open>h\<close> had, and performs no retain and no
  release. Move-assigning \<open>h\<close> to a live \<open>h2\<close> does the same, after exactly one release of
  the pointer \<open>h2\<close> had before if that was non-null. Destroying \<open>h\<close> afterwards performs no
  release; destroying \<open>h2\<close> then performs exactly one release if the pointer \<open>h\<close> had was
  non-null, and none if it was null.
\<close>

theorem move_transfers_pointer_and_credit:
  assumes ok: "credits_ok w" and live: "refs w h = Some r" and ne: "h2 \<noteq> h"
  shows "(\<exists>w1 w2 w3.
            scoped_ref_move h2 h w = Inr w1 \<and>
            refs w1 h = Some \<lparr>m_ref = None\<rparr> \<and> operator_bool h w1 = Inr (False, w1) \<and>
            refs w1 h2 = Some \<lparr>m_ref = m_ref r\<rparr> \<and>
            calls w1 = calls w \<and> objs w1 = objs w \<and>
            scoped_ref_dtor h w1 = Inr w2 \<and> calls w2 = calls w1 \<and> objs w2 = objs w1 \<and>
            scoped_ref_dtor h2 w2 = Inr w3 \<and> calls w3 = calls w2 @ release_of (m_ref r)) \<and>
         (\<forall>r2. refs w h2 = Some r2 \<longrightarrow>
            (\<exists>w1 w2 w3.
               operator_assign_move h2 h w = Inr w1 \<and>
               refs w1 h = Some \<lparr>m_ref = None\<rparr> \<and> operator_bool h w1 = Inr (False, w1) \<and>
               refs w1 h2 = Some \<lparr>m_ref = m_ref r\<rparr> \<and>
               calls w1 = calls w @ release_of (m_ref r2) \<and>
               scoped_ref_dtor h w1 = Inr w2 \<and> calls w2 = calls w1 \<and> objs w2 = objs w1 \<and>
               scoped_ref_dtor h2 w2 = Inr w3 \<and> calls w3 = calls w2 @ release_of (m_ref r)))"
proof (intro conjI allI impI)
  let ?w1 = "w\<lparr>refs := (refs w)(h2 \<mapsto> \<lparr>m_ref = m_ref r\<rparr>, h \<mapsto> \<lparr>m_ref = None\<rparr>)\<rparr>"
  let ?w2 = "?w1\<lparr>refs := (refs ?w1)(h := None)\<rparr>"
  have mv: "scoped_ref_move h2 h w = Inr ?w1" using live by (rule move_ctor_live)
  have l1: "refs ?w1 h = Some \<lparr>m_ref = None\<rparr>" by simp
  have l1': "refs ?w1 h2 = Some \<lparr>m_ref = m_ref r\<rparr>" using ne by simp
  have b: "operator_bool h ?w1 = Inr (False, ?w1)" using operator_bool_live [OF l1] by simp
  have d: "scoped_ref_dtor h ?w1 = Inr ?w2" using l1 by (rule dtor_null) simp
  have l2: "refs ?w2 h2 = Some \<lparr>m_ref = m_ref r\<rparr>" using ne by simp
  have "objs ?w2 a \<noteq> None" if "m_ref r = Some a" for a
    using holder_live [OF ok live that] by auto
  then obtain w3 where d2: "scoped_ref_dtor h2 ?w2 = Inr w3"
      "calls w3 = calls ?w2 @ release_of (m_ref r)"
    using dtor_release_of [OF l2] by auto
  show "\<exists>w1 w2 w3.
            scoped_ref_move h2 h w = Inr w1 \<and>
            refs w1 h = Some \<lparr>m_ref = None\<rparr> \<and> operator_bool h w1 = Inr (False, w1) \<and>
            refs w1 h2 = Some \<lparr>m_ref = m_ref r\<rparr> \<and>
            calls w1 = calls w \<and> objs w1 = objs w \<and>
            scoped_ref_dtor h w1 = Inr w2 \<and> calls w2 = calls w1 \<and> objs w2 = objs w1 \<and>
            scoped_ref_dtor h2 w2 = Inr w3 \<and> calls w3 = calls w2 @ release_of (m_ref r)"
    using mv l1 l1' b d d2 by (intro exI [of _ ?w1] exI [of _ ?w2] exI [of _ w3]) simp
next
  fix r2 assume live2: "refs w h2 = Some r2"
  have "objs w b \<noteq> None" if "m_ref r2 = Some b" for b
    using holder_live [OF ok live2 that] by auto
  then obtain w' where dec: "Py_XDECREF (m_ref r2) w = Inr w'"
      and c': "calls w' = calls w @ release_of (m_ref r2)"
      and keeps: "\<forall>a n. objs w a = Some n \<and> (m_ref r2 = Some a \<longrightarrow> 2 \<le> n) \<longrightarrow> objs w' a \<noteq> None"
    using Py_XDECREF_release_of [of "m_ref r2" w] by blast
  let ?w1 = "w'\<lparr>refs := (refs w)(h2 \<mapsto> \<lparr>m_ref = m_ref r\<rparr>, h \<mapsto> \<lparr>m_ref = None\<rparr>)\<rparr>"
  let ?w2 = "?w1\<lparr>refs := (refs ?w1)(h := None)\<rparr>"
  have mv: "operator_assign_move h2 h w = Inr ?w1"
    using live live2 ne dec by (rule assign_move_live)
  have l1: "refs ?w1 h = Some \<lparr>m_ref = None\<rparr>" by simp
  have l1': "refs ?w1 h2 = Some \<lparr>m_ref = m_ref r\<rparr>" using ne by simp
  have b: "operator_bool h ?w1 = Inr (False, ?w1)" using operator_bool_live [OF l1] by simp
  have d: "scoped_ref_dtor h ?w1 = Inr ?w2" using l1 by (rule dtor_null) simp
  have l2: "refs ?w2 h2 = Some \<lparr>m_ref = m_ref r\<rparr>" using ne by simp
  have "objs ?w2 a \<noteq> None" if a: "m_ref r = Some a" for a
  proof -
    obtain n where n: "objs w a = Some n" using holder_live [OF ok live a] by blast
    have "2 \<le> n" if "m_ref r2 = Some a"
      using two_holders_live [OF ok live a live2 that] ne n by auto
    then have "objs w' a \<noteq> None" using keeps n by blast
    then show ?thesis by simp
  qed
  then obtain w3 where d2: "scoped_ref_dtor h2 ?w2 = Inr w3"
      "calls w3 = calls ?w2 @ release_of (m_ref r)"
    using dtor_release_of [OF l2] by auto
  show "\<exists>w1 w2 w3.
               operator_assign_move h2 h w = Inr w1 \<and>
               refs w1 h = Some \<lparr>m_ref = None\<rparr> \<and> operator_bool h w1 = Inr (False, w1) \<and>
               refs w1 h2 = Some \<lparr>m_ref = m_ref r\<rparr> \<and>
               calls w1 = calls w @ release_of (m_ref r2) \<and>
               scoped_ref_dtor h w1 = Inr w2 \<and> calls w2 = calls w1 \<and> objs w2 = objs w1 \<and>
               scoped_ref_dtor h2 w2 = Inr w3 \<and> calls w3 = calls w2 @ release_of (m_ref r)"
    using mv l1 l1' b d d2 c' by (intro exI [of _ ?w1] exI [of _ ?w2] exI [of _ w3]) simp
qed

theorem move_transfers_pointer_and_credit_witness:
  "credits_ok two_objects \<and> refs two_objects 0 = Some \<lparr>m_ref = Some 7\<rparr> \<and>
   refs two_objects 1 = Some \<lparr>m_ref = Some 8\<rparr> \<and>
   (\<exists>w1 w2 w3.
      scoped_ref_move 2 0 two_objects = Inr w1 \<and>
      refs w1 0 = Some \<lparr>m_ref = None\<rparr> \<and> refs w1 2 = Some \<lparr>m_ref = Some 7\<rparr> \<and>
      calls w1 = [] \<and>
      scoped_ref_dtor 0 w1 = Inr w2 \<and> calls w2 = [] \<and>
      scoped_ref_dtor 2 w2 = Inr w3 \<and> calls w3 = [Release 7]) \<and>
   (\<exists>w1 w2 w3.
      operator_assign_move 1 0 two_objects = Inr w1 \<and>
      refs w1 0 = Some \<lparr>m_ref = None\<rparr> \<and> refs w1 1 = Some \<lparr>m_ref = Some 7\<rparr> \<and>
      calls w1 = [Release 8] \<and>
      scoped_ref_dtor 0 w1 = Inr w2 \<and> calls w2 = [Release 8] \<and>
      scoped_ref_dtor 1 w2 = Inr w3 \<and> calls w3 = [Release 8, Release 7])"
proof -
  have l0: "refs two_objects 0 = Some \<lparr>m_ref = Some 7\<rparr>"
    and l1: "refs two_objects 1 = Some \<lparr>m_ref = Some 8\<rparr>"
    and c: "calls two_objects = []"
    by (simp_all add: two_objects_def)
  have n20: "(2::nat) \<noteq> 0" and n10: "(1::nat) \<noteq> 0" by simp_all
  have ctor: "\<exists>w1 w2 w3.
      scoped_ref_move 2 0 two_objects = Inr w1 \<and>
      refs w1 0 = Some \<lparr>m_ref = None\<rparr> \<and> refs w1 2 = Some \<lparr>m_ref = Some 7\<rparr> \<and>
      calls w1 = [] \<and>
      scoped_ref_dtor 0 w1 = Inr w2 \<and> calls w2 = [] \<and>
      scoped_ref_dtor 2 w2 = Inr w3 \<and> calls w3 = [Release 7]"
    using move_transfers_pointer_and_credit [OF credits_ok_two_objects l0 n20] c
    by (auto simp: release_of_def)
  have asg: "\<exists>w1 w2 w3.
      operator_assign_move 1 0 two_objects = Inr w1 \<and>
      refs w1 0 = Some \<lparr>m_ref = None\<rparr> \<and> refs w1 1 = Some \<lparr>m_ref = Some 7\<rparr> \<and>
      calls w1 = [Release 8] \<and>
      scoped_ref_dtor 0 w1 = Inr w2 \<and> calls w2 = [Release 8] \<and>
      scoped_ref_dtor 1 w2 = Inr w3 \<and> calls w3 = [Release 8, Release 7]"
    using move_transfers_pointer_and_credit [OF credits_ok_two_objects l0 n10] l1 c
    by (auto simp: release_of_def)
  show ?thesis using credits_ok_two_objects l0 l1 ctor asg by blast
qed

text \<open>
  The claim as stated promises one release at the destruction of \<open>h2\<close> for every \<open>h\<close>.
  When \<open>h\<close> is null, \<open>h2\<close> is null after the move and its destruction releases nothing.
\<close>

theorem move_from_null_no_release:
  "map_sum id calls (and_then (scoped_ref_move 1 0 null_handle) (scoped_ref_dtor 1)) = Inr []"
  by (simp add: scoped_ref_move_def scoped_ref_dtor_def init_m_ref_def null_handle_def
        get_m_ref_def set_m_ref_eq)

section \<open>Escape\<close>

text \<open>
  Claim C5. \<^verbatim>\<open>escape\<close> on a live handle returns the pointer the handle stored and leaves
  the handle null (its boolean test is false), with no release: the calls and the
  reference counts are unchanged. Destroying the handle afterwards performs no release
  either. The credit the handle held is still there and now belongs to the returned raw
  pointer: the object has one more credit that no handle holds, before and after the
  handle's destruction.
\<close>

theorem escape_hands_credit_out:
  assumes live: "refs w h = Some r"
  shows "\<exists>w1. escape h w = Inr (m_ref r, w1) \<and>
              refs w1 h = Some \<lparr>m_ref = None\<rparr> \<and>
              operator_bool h w1 = Inr (False, w1) \<and>
              calls w1 = calls w \<and> objs w1 = objs w \<and>
              scoped_ref_dtor h w1 = Inr (w1\<lparr>refs := (refs w1)(h := None)\<rparr>) \<and>
              (\<forall>a. m_ref r = Some a \<and> credits_ok w \<longrightarrow>
                 spare w1 a = spare w a + 1 \<and>
                 spare (w1\<lparr>refs := (refs w1)(h := None)\<rparr>) a = spare w a + 1)"
proof -
  let ?w1 = "w\<lparr>refs := (refs w)(h \<mapsto> \<lparr>m_ref = None\<rparr>)\<rparr>"
  have live1: "refs ?w1 h = Some \<lparr>m_ref = None\<rparr>" by simp
  have "escape h w = Inr (m_ref r, ?w1)" using live by (rule escape_live)
  moreover have "operator_bool h ?w1 = Inr (False, ?w1)"
    using operator_bool_live [OF live1] by simp
  moreover have "scoped_ref_dtor h ?w1 = Inr (?w1\<lparr>refs := (refs ?w1)(h := None)\<rparr>)"
    using live1 by (rule dtor_null) simp
  moreover have "\<forall>a. m_ref r = Some a \<and> credits_ok w \<longrightarrow>
                 spare ?w1 a = spare w a + 1 \<and>
                 spare (?w1\<lparr>refs := (refs ?w1)(h := None)\<rparr>) a = spare w a + 1"
    using spare_after_escape [OF _ live] by simp
  ultimately show ?thesis using live1 by simp
qed

theorem escape_hands_credit_out_witness:
  "refs sole_owner 0 = Some \<lparr>m_ref = Some 7\<rparr> \<and> credits_ok sole_owner \<and> spare sole_owner 7 = 0 \<and>
   (\<exists>w1. escape 0 sole_owner = Inr (Some 7, w1) \<and>
         refs w1 0 = Some \<lparr>m_ref = None\<rparr> \<and>
         calls w1 = [] \<and> objs w1 7 = Some 1 \<and>
         scoped_ref_dtor 0 w1 = Inr (w1\<lparr>refs := (refs w1)(0 := None)\<rparr>) \<and>
         spare w1 7 = 1)"
proof -
  have live: "refs sole_owner 0 = Some \<lparr>m_ref = Some 7\<rparr>"
    by (simp add: sole_owner_def)
  have h: "holders sole_owner 7 = {0}"
    by (auto simp: holders_def sole_owner_def split: if_splits)
  have c: "calls sole_owner = []" "objs sole_owner 7 = Some 1"
    by (simp_all add: sole_owner_def)
  have sp: "spare sole_owner 7 = 0"
    by (simp add: spare_def h c)
  show ?thesis
    using escape_hands_credit_out [OF live] live credits_ok_sole_owner sp c
    by auto
qed

section \<open>Adoption\<close>

text \<open>
  Claim C6. Let \<open>p\<close> be a non-null pointer that carries a credit no handle holds yet.
  The adopting constructor stores \<open>p\<close> as it is, so that \<^verbatim>\<open>get()\<close> returns \<open>p\<close>; it
  performs no retain (the calls and the reference counts are unchanged); and destroying
  the new handle performs exactly one release, of \<open>p\<close>.
\<close>

theorem adopt_keeps_count_dtor_releases_once:
  assumes credit: "0 < spare w a"
  shows "\<exists>w1. scoped_ref_adopt this (Some a) w = Inr w1 \<and>
              get this w1 = Inr (Some a, w1) \<and>
              calls w1 = calls w \<and> objs w1 = objs w \<and>
              (\<exists>w2. scoped_ref_dtor this w1 = Inr w2 \<and> calls w2 = calls w @ [Release a])"
proof -
  obtain n where n: "objs w a = Some n"
    using credit by (cases "objs w a") (simp_all add: spare_def)
  let ?w1 = "init_m_ref this (Some a) w"
  have live1: "refs ?w1 this = Some \<lparr>m_ref = Some a\<rparr>" by (simp add: init_m_ref_def)
  have n1: "objs ?w1 a = Some n" using n by (simp add: init_m_ref_def)
  have "scoped_ref_adopt this (Some a) w = Inr ?w1" by (simp add: scoped_ref_adopt_def)
  moreover have "get this ?w1 = Inr (Some a, ?w1)" using get_live [OF live1] by simp
  moreover have "calls ?w1 = calls w" "objs ?w1 = objs w" by (simp_all add: init_m_ref_def)
  moreover have "\<exists>w2. scoped_ref_dtor this ?w1 = Inr w2 \<and> calls w2 = calls w @ [Release a]"
    using dtor_live [OF live1 _ n1] by (simp add: init_m_ref_def)
  ultimately show ?thesis by blast
qed

theorem adopt_keeps_count_dtor_releases_once_witness:
  "0 < spare raw_credit 7 \<and>
   (\<exists>w1. scoped_ref_adopt 0 (Some 7) raw_credit = Inr w1 \<and>
         get 0 w1 = Inr (Some 7, w1) \<and>
         calls w1 = calls raw_credit \<and> objs w1 = objs raw_credit \<and>
         (\<exists>w2. scoped_ref_dtor 0 w1 = Inr w2 \<and> calls w2 = calls raw_credit @ [Release 7]))"
proof -
  have credit: "0 < spare raw_credit 7"
    by (simp add: spare_def raw_credit_def holders_def)
  show ?thesis
    using adopt_keeps_count_dtor_releases_once [OF credit, of 0] credit by simp
qed

section \<open>Destruction\<close>

text \<open>
  Claim C7. Destroying a live handle whose pointer is null performs no release: the only
  effect is that the handle stops existing. Destroying a handle whose pointer is non-null
  (and, by the invariant, backed by a credit) performs exactly one release, of that
  pointer. In particular a handle that was emptied by \<^verbatim>\<open>escape\<close>, by the move constructor
  or by move assignment is destroyed without any release.
\<close>

theorem dtor_releases_once_iff_nonnull:
  assumes live: "refs w h = Some r"
  shows "(m_ref r = None \<longrightarrow> scoped_ref_dtor h w = Inr (w\<lparr>refs := (refs w)(h := None)\<rparr>)) \<and>
         (\<forall>a. m_ref r = Some a \<and> credits_ok w \<longrightarrow>
            (\<exists>w'. scoped_ref_dtor h w = Inr w' \<and> calls w' = calls w @ [Release a] \<and>
                  refs w' = (refs w)(h := None))) \<and>
         (\<forall>p w1. escape h w = Inr (p, w1) \<longrightarrow>
            scoped_ref_dtor h w1 = Inr (w1\<lparr>refs := (refs w1)(h := None)\<rparr>)) \<and>
         (\<forall>h2 w1. scoped_ref_move h2 h w = Inr w1 \<longrightarrow>
            scoped_ref_dtor h w1 = Inr (w1\<lparr>refs := (refs w1)(h := None)\<rparr>)) \<and>
         (\<forall>h2 w1. operator_assign_move h2 h w = Inr w1 \<longrightarrow>
            scoped_ref_dtor h w1 = Inr (w1\<lparr>refs := (refs w1)(h := None)\<rparr>))"
proof (intro conjI allI impI)
  assume "m_ref r = None"
  with live show "scoped_ref_dtor h w = Inr (w\<lparr>refs := (refs w)(h := None)\<rparr>)"
    by (rule dtor_null)
next
  fix a assume a: "m_ref r = Some a \<and> credits_ok w"
  then obtain n where n: "objs w a = Some n"
    using holder_live [OF _ live, of a] by blast
  show "\<exists>w'. scoped_ref_dtor h w = Inr w' \<and> calls w' = calls w @ [Release a] \<and>
             refs w' = (refs w)(h := None)"
    using dtor_live [OF live _ n] a by simp
next
  fix p w1 assume "escape h w = Inr (p, w1)"
  then have w1: "w1 = w\<lparr>refs := (refs w)(h \<mapsto> \<lparr>m_ref = None\<rparr>)\<rparr>"
    using escape_live [OF live] by simp
  show "scoped_ref_dtor h w1 = Inr (w1\<lparr>refs := (refs w1)(h := None)\<rparr>)"
    by (rule dtor_null [where r = "\<lparr>m_ref = None\<rparr>"]) (simp_all add: w1)
next
  fix h2 w1 assume "scoped_ref_move h2 h w = Inr w1"
  then have w1: "w1 = w\<lparr>refs := (refs w)(h2 \<mapsto> \<lparr>m_ref = m_ref r\<rparr>, h \<mapsto> \<lparr>m_ref = None\<rparr>)\<rparr>"
    using move_ctor_live [OF live] by simp
  show "scoped_ref_dtor h w1 = Inr (w1\<lparr>refs := (refs w1)(h := None)\<rparr>)"
    by (rule dtor_null [where r = "\<lparr>m_ref = None\<rparr>"]) (simp_all add: w1)
next
  fix h2 w1 assume "operator_assign_move h2 h w = Inr w1"
  then have "refs w1 h = Some \<lparr>m_ref = None\<rparr>"
    by (rule assign_move_empties_source)
  then show "scoped_ref_dtor h w1 = Inr (w1\<lparr>refs := (refs w1)(h := None)\<rparr>)"
    by (rule dtor_null) simp
qed

theorem dtor_releases_once_iff_nonnull_witness:
  "refs sole_owner 0 = Some \<lparr>m_ref = Some 7\<rparr> \<and> credits_ok sole_owner \<and>
   (\<exists>w'. scoped_ref_dtor 0 sole_owner = Inr w' \<and>
         calls w' = calls sole_owner @ [Release 7] \<and>
         refs w' = (refs sole_owner)(0 := None)) \<and>
   (\<exists>w1. escape 0 sole_owner = Inr (Some 7, w1) \<and>
         scoped_ref_dtor 0 w1 = Inr (w1\<lparr>refs := (refs w1)(0 := None)\<rparr>))"
proof -
  have live: "refs sole_owner 0 = Some \<lparr>m_ref = Some 7\<rparr>"
    by (simp add: sole_owner_def)
  have esc: "\<exists>w1. escape 0 sole_owner = Inr (Some 7, w1)"
    using escape_live [OF live] by simp
  show ?thesis
    using dtor_releases_once_iff_nonnull [OF live] live credits_ok_sole_owner esc
    by auto
qed

section \<open>Comparison\<close>

text \<open>
  Claim C8. On live handles, \<^verbatim>\<open>==\<close> against a raw pointer and against another handle
  returns true exactly when the stored pointers are equal, and \<^verbatim>\<open>!=\<close> returns the
  negation. The comparison is one of identity, not of the data pointed to: two distinct
  objects compare unequal even when the heap holds the same data for both.
\<close>

theorem equality_is_pointer_identity:
  assumes live: "refs w h = Some r"
  shows "(\<forall>q. operator_eq_ptr h q w = Inr (m_ref r = q, w) \<and>
              operator_ne_ptr h q w = Inr (m_ref r \<noteq> q, w)) \<and>
         (\<forall>h2 r2. refs w h2 = Some r2 \<longrightarrow>
            operator_eq_ref h h2 w = Inr (m_ref r = m_ref r2, w) \<and>
            operator_ne_ref h h2 w = Inr (m_ref r \<noteq> m_ref r2, w)) \<and>
         (\<forall>h2 r2 a b. refs w h2 = Some r2 \<and> m_ref r = Some a \<and> m_ref r2 = Some b \<and>
                      a \<noteq> b \<and> objs w a = objs w b \<longrightarrow>
            operator_eq_ref h h2 w = Inr (False, w) \<and>
            operator_ne_ref h h2 w = Inr (True, w) \<and>
            operator_eq_ptr h (Some b) w = Inr (False, w) \<and>
            operator_ne_ptr h (Some b) w = Inr (True, w))"
proof (intro conjI allI impI)
  fix q
  show "operator_eq_ptr h q w = Inr (m_ref r = q, w)" using live by (rule operator_eq_ptr_live)
  show "operator_ne_ptr h q w = Inr (m_ref r \<noteq> q, w)" using live by (rule operator_ne_ptr_live)
next
  fix h2 r2 assume l2: "refs w h2 = Some r2"
  show "operator_eq_ref h h2 w = Inr (m_ref r = m_ref r2, w)"
    using live l2 by (rule operator_eq_ref_live)
  show "operator_ne_ref h h2 w = Inr (m_ref r \<noteq> m_ref r2, w)"
    using live l2 by (rule operator_ne_ref_live)
next
  fix h2 r2 a b
  assume h: "refs w h2 = Some r2 \<and> m_ref r = Some a \<and> m_ref r2 = Some b \<and>
             a \<noteq> b \<and> objs w a = objs w b"
  then have l2: "refs w h2 = Some r2" and ne: "m_ref r \<noteq> m_ref r2" "m_ref r \<noteq> Some b" by auto
  show "operator_eq_ref h h2 w = Inr (False, w)"
    using operator_eq_ref_live [OF live l2] ne by simp
  show "operator_ne_ref h h2 w = Inr (True, w)"
    using operator_ne_ref_live [OF live l2] ne by simp
  show "operator_eq_ptr h (Some b) w = Inr (False, w)"
    using operator_eq_ptr_live [OF live, of "Some b"] ne by simp
  show "operator_ne_ptr h (Some b) w = Inr (True, w)"
    using operator_ne_ptr_live [OF live, of "Some b"] ne by simp
qed

theorem equality_is_pointer_identity_witness:
  "refs two_objects 0 = Some \<lparr>m_ref = Some 7\<rparr> \<and>
   refs two_objects 1 = Some \<lparr>m_ref = Some 8\<rparr> \<and>
   objs two_objects 7 = objs two_objects 8 \<and>
   operator_eq_ref 0 1 two_objects = Inr (False, two_objects) \<and>
   operator_ne_ref 0 1 two_objects = Inr (True, two_objects) \<and>
   operator_eq_ref 0 0 two_objects = Inr (True, two_objects) \<and>
   operator_eq_ptr 0 (Some 7) two_objects = Inr (True, two_objects) \<and>
   operator_eq_ptr 0 (Some 8) two_objects = Inr (False, two_objects) \<and>
   operator_ne_ptr 0 None two_objects = Inr (True, two_objects)"
proof -
  have l0: "refs two_objects 0 = Some \<lparr>m_ref = Some 7\<rparr>"
    and l1: "refs two_objects 1 = Some \<lparr>m_ref = Some 8\<rparr>"
    and o: "objs two_objects 7 = objs two_objects 8"
    by (simp_all add: two_objects_def)
  show ?thesis
    using equality_is_pointer_identity [OF l0] l0 l1 o by auto
qed

section \<open>Move assignment to itself\<close>

text \<open>
  Claim C9. Let \<open>h\<close> be a live handle with a non-null pointer \<open>a\<close>, in a state that
  satisfies the credit invariant. The move assignment \<^verbatim>\<open>h = std::move(h)\<close> performs exactly
  one release, of \<open>a\<close>, and leaves \<open>h\<close> null (its boolean test is false); destroying \<open>h\<close>
  afterwards performs no release.
\<close>

theorem self_move_assign_releases_and_empties:
  assumes ok: "credits_ok w" and live: "refs w h = Some r" and a: "m_ref r = Some a"
  shows "\<exists>w1. operator_assign_move h h w = Inr w1 \<and>
              refs w1 h = Some \<lparr>m_ref = None\<rparr> \<and>
              operator_bool h w1 = Inr (False, w1) \<and>
              calls w1 = calls w @ [Release a] \<and>
              scoped_ref_dtor h w1 = Inr (w1\<lparr>refs := (refs w1)(h := None)\<rparr>)"
proof -
  obtain n where n: "objs w a = Some n"
    using holder_live [OF ok live a] by blast
  let ?w1 = "w\<lparr>objs := (if n = 1 then (objs w)(a := None) else (objs w)(a \<mapsto> n - 1)),
               calls := calls w @ [Release a],
               refs := (refs w)(h \<mapsto> \<lparr>m_ref = None\<rparr>)\<rparr>"
  have mv: "operator_assign_move h h w = Inr ?w1"
    using live a n by (rule assign_move_self_live)
  have live1: "refs ?w1 h = Some \<lparr>m_ref = None\<rparr>" by simp
  have b: "operator_bool h ?w1 = Inr (False, ?w1)"
    using operator_bool_live [OF live1] by simp
  have d: "scoped_ref_dtor h ?w1 = Inr (?w1\<lparr>refs := (refs ?w1)(h := None)\<rparr>)"
    using live1 by (rule dtor_null) simp
  show ?thesis
    using mv live1 b d by (intro exI [of _ ?w1]) simp
qed

theorem self_move_assign_releases_and_empties_witness:
  "credits_ok sole_owner \<and> refs sole_owner 0 = Some \<lparr>m_ref = Some 7\<rparr> \<and>
   (\<exists>w1. operator_assign_move 0 0 sole_owner = Inr w1 \<and>
         refs w1 0 = Some \<lparr>m_ref = None\<rparr> \<and>
         operator_bool 0 w1 = Inr (False, w1) \<and>
         calls w1 = [Release 7] \<and>
         scoped_ref_dtor 0 w1 = Inr (w1\<lparr>refs := (refs w1)(0 := None)\<rparr>))"
proof -
  have live: "refs sole_owner 0 = Some \<lparr>m_ref = Some 7\<rparr>"
    and c: "calls sole_owner = []"
    by (simp_all add: sole_owner_def)
  have a: "m_ref \<lparr>m_ref = Some (7::nat)\<rparr> = Some 7" by simp
  show ?thesis
    using self_move_assign_releases_and_empties [OF credits_ok_sole_owner live a]
      live credits_ok_sole_owner c
    by auto
qed

section \<open>Observers leave the state alone\<close>

text \<open>
  Claim C10. On a live handle every observer returns in the state it was called in: the
  stored pointer, the reference counts and the calls made so far are all unchanged. This
  holds for both forms of \<^verbatim>\<open>get\<close>, the four pointer conversions, both forms of
  \<^verbatim>\<open>operator->\<close>, the boolean test and the four comparisons; \<^verbatim>\<open>operator*\<close> returns, in the
  unchanged state, when the pointer is non-null (on a null handle it is undefined), and
  whenever it returns the state is unchanged.
\<close>

theorem observers_change_nothing:
  assumes live: "refs w h = Some r"
  shows "get h w = Inr (m_ref r, w) \<and>
         get_const h w = Inr (m_ref r, w) \<and>
         operator_T_ptr h w = Inr (m_ref r, w) \<and>
         operator_const_T_ptr h w = Inr (m_ref r, w) \<and>
         operator_PyObject_ptr h w = Inr (m_ref r, w) \<and>
         operator_const_PyObject_ptr h w = Inr (m_ref r, w) \<and>
         operator_arrow h w = Inr (m_ref r, w) \<and>
         operator_arrow_const h w = Inr (m_ref r, w) \<and>
         operator_bool h w = Inr (m_ref r \<noteq> None, w) \<and>
         (\<forall>a. m_ref r = Some a \<longrightarrow>
            operator_star h w = Inr (a, w) \<and> operator_star_const h w = Inr (a, w)) \<and>
         (\<forall>v w'. operator_star h w = Inr (v, w') \<or> operator_star_const h w = Inr (v, w') \<longrightarrow>
            w' = w) \<and>
         (\<forall>q. operator_eq_ptr h q w = Inr (m_ref r = q, w) \<and>
              operator_ne_ptr h q w = Inr (m_ref r \<noteq> q, w)) \<and>
         (\<forall>h2 r2. refs w h2 = Some r2 \<longrightarrow>
            operator_eq_ref h h2 w = Inr (m_ref r = m_ref r2, w) \<and>
            operator_ne_ref h h2 w = Inr (m_ref r \<noteq> m_ref r2, w))"
proof -
  have ptrs: "get h w = Inr (m_ref r, w)" "get_const h w = Inr (m_ref r, w)"
      "operator_T_ptr h w = Inr (m_ref r, w)" "operator_const_T_ptr h w = Inr (m_ref r, w)"
      "operator_PyObject_ptr h w = Inr (m_ref r, w)"
      "operator_const_PyObject_ptr h w = Inr (m_ref r, w)"
      "operator_arrow h w = Inr (m_ref r, w)" "operator_arrow_const h w = Inr (m_ref r, w)"
    using live
    by (simp_all add: get_def get_const_def operator_T_ptr_def operator_const_T_ptr_def
          operator_PyObject_ptr_def operator_const_PyObject_ptr_def operator_arrow_def
          operator_arrow_const_def)
  have b: "operator_bool h w = Inr (m_ref r \<noteq> None, w)"
    using live by (rule operator_bool_live)
  have star: "\<forall>a. m_ref r = Some a \<longrightarrow>
            operator_star h w = Inr (a, w) \<and> operator_star_const h w = Inr (a, w)"
    using live by (simp add: operator_star_def operator_star_const_def)
  have frame: "\<forall>v w'. operator_star h w = Inr (v, w') \<or> operator_star_const h w = Inr (v, w') \<longrightarrow>
            w' = w"
    using operator_star_frame operator_star_const_frame by blast
  have cmp_ptr: "\<forall>q. operator_eq_ptr h q w = Inr (m_ref r = q, w) \<and>
              operator_ne_ptr h q w = Inr (m_ref r \<noteq> q, w)"
    using operator_eq_ptr_live [OF live] operator_ne_ptr_live [OF live] by simp
  have cmp_ref: "\<forall>h2 r2. refs w h2 = Some r2 \<longrightarrow>
            operator_eq_ref h h2 w = Inr (m_ref r = m_ref r2, w) \<and>
            operator_ne_ref h h2 w = Inr (m_ref r \<noteq> m_ref r2, w)"
    using operator_eq_ref_live [OF live] operator_ne_ref_live [OF live] by simp
  show ?thesis
    using ptrs b star frame cmp_ptr cmp_ref by (intro conjI) assumption+
qed

theorem observers_change_nothing_witness:
  "refs two_objects 0 = Some \<lparr>m_ref = Some 7\<rparr> \<and>
   get 0 two_objects = Inr (Some 7, two_objects) \<and>
   operator_bool 0 two_objects = Inr (True, two_objects) \<and>
   operator_star 0 two_objects = Inr (7, two_objects) \<and>
   operator_eq_ref 0 1 two_objects = Inr (False, two_objects)"
proof -
  have l0: "refs two_objects 0 = Some \<lparr>m_ref = Some 7\<rparr>"
    and l1: "refs two_objects 1 = Some \<lparr>m_ref = Some 8\<rparr>"
    by (simp_all add: two_objects_def)
  show ?thesis
    using observers_change_nothing [OF l0] l0 l1 by auto
qed

end
